theory Spec2Isabelle
  imports Main "HOL-Library.Sublist" "HOL-Library.AList"
begin

section \<open>Strings of the edge function\<close>

text \<open>
  A string is a list of 8-bit characters: the code units of a JavaScript string in the
  range 0..255. \<open>String.prototype.trim\<close> and the regular-expression class \<open>\s\<close> agree on
  what white space is; in this range it is TAB, LF, VT, FF, CR, SPACE and NBSP.
\<close>

definition is_space :: "char \<Rightarrow> bool" where
  "is_space c = (c \<in> {CHR 0x09, CHR 0x0A, CHR 0x0B, CHR 0x0C, CHR 0x0D, CHR 0x20, CHR 0xA0})"

text \<open>\<open>s.trim()\<close>\<close>

definition trim :: "string \<Rightarrow> string" where
  "trim s = rev (dropWhile is_space (rev (dropWhile is_space s)))"

text \<open>\<open>s.replace(/\s/g, '')\<close>\<close>

definition remove_spaces :: "string \<Rightarrow> string" where
  "remove_spaces s = filter (\<lambda>c. \<not> is_space c) s"

text \<open>\<open>s.includes(pat)\<close>\<close>

fun includes_str :: "string \<Rightarrow> string \<Rightarrow> bool" where
  "includes_str [] pat = (pat = [])"
| "includes_str (c # cs) pat = (prefix pat (c # cs) \<or> includes_str cs pat)"

text \<open>\<open>s.startsWith(pat)\<close>\<close>

definition startsWith :: "string \<Rightarrow> string \<Rightarrow> bool" where
  "startsWith s pat = prefix pat s"

text \<open>\<open>s.split(sep)\<close> for a separator of one character: the pieces between the separators,
  empty pieces included, so that the result is never the empty list.\<close>

fun split_char :: "char \<Rightarrow> string \<Rightarrow> string list" where
  "split_char sep [] = [[]]"
| "split_char sep (c # cs) =
     (if c = sep then [] # split_char sep cs
      else (case split_char sep cs of
              [] \<Rightarrow> [[c]]
            | w # ws \<Rightarrow> (c # w) # ws))"

text \<open>\<open>s.split(/\r?\n/)\<close>: a separator is CR LF or a lone LF; a CR that no LF follows
  stays in its piece.\<close>

fun split_lines :: "string \<Rightarrow> string list" where
  "split_lines [] = [[]]"
| "split_lines (c # cs) =
     (if c = CHR 0x0A then [] # split_lines cs
      else if c = CHR 0x0D \<and> cs \<noteq> [] \<and> hd cs = CHR 0x0A then [] # split_lines (tl cs)
      else (case split_lines cs of
              [] \<Rightarrow> [[c]]
            | w # ws \<Rightarrow> (c # w) # ws))"

text \<open>\<open>parts.join(sep)\<close>\<close>

fun join :: "string \<Rightarrow> string list \<Rightarrow> string" where
  "join sep [] = []"
| "join sep [x] = x"
| "join sep (x # y # ys) = x @ sep @ join sep (y # ys)"

section \<open>Base64 of the platform\<close>

text \<open>
  \<open>atob\<close> and \<open>btoa\<close> are functions of the runtime, specified by the HTML standard
  (forgiving-base64 decode and encode). \<open>atob\<close> throws on malformed input: the exception is
  the value \<open>None\<close>.
\<close>

definition b64_value :: "char \<Rightarrow> nat option" where
  "b64_value c =
     (let n = (of_char c :: nat) in
      if 65 \<le> n \<and> n \<le> 90 then Some (n - 65)
      else if 97 \<le> n \<and> n \<le> 122 then Some (n - 71)
      else if 48 \<le> n \<and> n \<le> 57 then Some (n + 4)
      else if c = CHR ''+'' then Some 62
      else if c = CHR ''/'' then Some 63
      else None)"

text \<open>Four sextets give three bytes; a rest of two sextets gives one byte and a rest of
  three gives two, the surplus bits discarded.\<close>

fun b64_bytes :: "nat list \<Rightarrow> nat list" where
  "b64_bytes (a # b # c # d # rest) =
     (a * 4 + b div 16) # ((b mod 16) * 16 + c div 4) # ((c mod 4) * 64 + d) # b64_bytes rest"
| "b64_bytes [a, b, c] = [a * 4 + b div 16, (b mod 16) * 16 + c div 4]"
| "b64_bytes [a, b] = [a * 4 + b div 16]"
| "b64_bytes [a] = []"
| "b64_bytes [] = []"

definition is_ascii_space :: "char \<Rightarrow> bool" where
  "is_ascii_space c = (c \<in> {CHR 0x09, CHR 0x0A, CHR 0x0C, CHR 0x0D, CHR 0x20})"

definition strip_padding :: "string \<Rightarrow> string" where
  "strip_padding s =
     (if length s mod 4 = 0 then
        (if suffix ''=='' s then take (length s - 2) s
         else if suffix ''='' s then take (length s - 1) s
         else s)
      else s)"

definition atob :: "string \<Rightarrow> string option" where
  "atob s =
     (let d = strip_padding (filter (\<lambda>c. \<not> is_ascii_space c) s) in
      if length d mod 4 = 1 then None
      else (case those (map b64_value d) of
              None \<Rightarrow> None
            | Some vs \<Rightarrow> Some (map char_of (b64_bytes vs))))"

definition b64_char :: "nat \<Rightarrow> char" where
  "b64_char v =
     (if v < 26 then char_of (v + 65)
      else if v < 52 then char_of (v + 71)
      else if v < 62 then char_of (v - 4)
      else if v = 62 then CHR ''+''
      else CHR ''/'')"

fun b64_sextets :: "nat list \<Rightarrow> string" where
  "b64_sextets (x # y # z # rest) =
     [b64_char (x div 4), b64_char ((x mod 4) * 16 + y div 16),
      b64_char ((y mod 16) * 4 + z div 64), b64_char (z mod 64)] @ b64_sextets rest"
| "b64_sextets [x, y] =
     [b64_char (x div 4), b64_char ((x mod 4) * 16 + y div 16), b64_char ((y mod 16) * 4), CHR ''='']"
| "b64_sextets [x] = [b64_char (x div 4), b64_char ((x mod 4) * 16), CHR ''='', CHR ''='']"
| "b64_sextets [] = []"

definition btoa :: "string \<Rightarrow> string" where
  "btoa s = b64_sextets (map of_char s)"

section \<open>The format classifier\<close>

record parsed =
  format :: string
  data :: string

text \<open>\<open>/^[A-Za-z0-9+/=\s]+$/.test(s)\<close>\<close>

definition base64Pattern :: "string \<Rightarrow> bool" where
  "base64Pattern s =
     (s \<noteq> [] \<and> list_all (\<lambda>c. b64_value c \<noteq> None \<or> c = CHR ''='' \<or> is_space c) s)"

text \<open>\<open>/^(ssr?|vmess1?|trojan|vless|hysteria|hysteria2|tg):\/\//.test(s)\<close>: one of the
  alternatives, then \<open>://\<close>, at the start of the string.\<close>

definition node_schemes :: "string list" where
  "node_schemes = [''ss'', ''ssr'', ''vmess'', ''vmess1'', ''trojan'', ''vless'',
                   ''hysteria'', ''hysteria2'', ''tg'']"

definition direct_link :: "string \<Rightarrow> bool" where
  "direct_link s = list_ex (\<lambda>scheme. prefix (scheme @ ''://'') s) node_schemes"

text \<open>The inner \<open>try\<close> block of \<open>parseData\<close>: it yields the decoded text when \<open>atob\<close> returns
  and the text has \<open>://\<close> in it; a throw of \<open>atob\<close> is caught there and nothing is yielded.\<close>

definition decoded_links :: "string \<Rightarrow> string option" where
  "decoded_links trimmed =
     (case atob (remove_spaces trimmed) of
        None \<Rightarrow> None
      | Some decoded \<Rightarrow> if includes_str decoded ''://'' then Some decoded else None)"

text \<open>On a string neither \<open>trim\<close>, \<open>test\<close> nor \<open>includes\<close> throws, so the outer \<open>catch\<close> of
  \<open>parseData\<close> (which returns \<open>unknown\<close> with the untouched argument) is never entered.\<close>

definition parseData :: "string \<Rightarrow> parsed" where
  "parseData dat =
     (let trimmed = trim dat in
      case (if base64Pattern trimmed \<and> 20 < length trimmed then decoded_links trimmed else None) of
        Some decoded \<Rightarrow> \<lparr>format = ''base64'', data = decoded\<rparr>
      | None \<Rightarrow>
          if includes_str trimmed ''proxies:'' \<or> includes_str trimmed ''Proxy:''
          then \<lparr>format = ''yaml'', data = trimmed\<rparr>
          else if direct_link trimmed then \<lparr>format = ''direct'', data = trimmed\<rparr>
          else \<lparr>format = ''unknown'', data = trimmed\<rparr>)"

section \<open>Requests, responses and the content store\<close>

type_synonym headers = "(string \<times> string) list"

text \<open>
  The store \<open>memoryCache\<close> is one \<open>Map\<close> from strings to strings. Some of its values are
  written as \<open>JSON.stringify(h)\<close> and read back with \<open>JSON.parse\<close>: \<open>Json h\<close> stands
  for the string \<open>JSON.stringify(h)\<close> of an object \<open>h\<close> with string values, which is never
  empty and which \<open>JSON.parse\<close> turns back into \<open>h\<close>. Every other string is a \<open>Text\<close>.
\<close>

datatype stored = Text string | Json headers

text \<open>What \<open>new URL(request.url)\<close> gives: the parts of the URL, and \<open>searchParams\<close> as the
  list of the decoded pairs of the query in their order.\<close>

record url =
  url_protocol :: string
  url_host :: string
  url_pathname :: string
  url_search :: string
  url_searchParams :: "(string \<times> string) list"

text \<open>A request: its URL and \<open>request.headers.get('User-Agent')\<close> (\<open>None\<close> is \<open>null\<close>).\<close>

record request =
  req_url :: url
  req_user_agent :: "string option"

text \<open>A \<open>Response\<close> built by the function: status (200 when the code gives none), body, and
  the headers the code passes.\<close>

record response =
  resp_status :: nat
  resp_body :: stored
  resp_headers :: headers

text \<open>What \<open>fetch\<close> resolves to: the status, the entries of \<open>response.headers\<close> (names in
  lower case, as the iteration of a \<open>Headers\<close> object gives them), and the body read as
  text: \<open>Inr\<close> the text, or \<open>Inl\<close> the message of the exception when reading the body
  throws. A rejected \<open>fetch\<close> (no connection, the 20 second abort) carries the message of its
  exception.\<close>

record upstream =
  up_status :: nat
  up_headers :: headers
  up_text :: "string + string"

datatype fetch_result = Rejected string | Resolved upstream

text \<open>\<open>response.ok\<close>\<close>

definition up_ok :: "upstream \<Rightarrow> bool" where
  "up_ok r = (200 \<le> up_status r \<and> up_status r \<le> 299)"

text \<open>
  The world outside: \<open>random n\<close> decides the \<open>n\<close>-th call of \<open>Math.random\<close> of the process,
  \<open>network n\<close> answers its \<open>n\<close>-th \<open>fetch\<close>, \<open>env_BACKEND\<close> is \<open>process.env.BACKEND\<close>, and
  \<open>constructor_message n\<close> is the message of the exception that \<open>new Response\<close> throws when
  it is given a body and the status \<open>n\<close> that admits none.
\<close>

record env =
  random :: "nat \<Rightarrow> nat"
  network :: "nat \<Rightarrow> string \<Rightarrow> headers \<Rightarrow> fetch_result"
  env_BACKEND :: "string option"
  constructor_message :: "nat \<Rightarrow> string"

text \<open>The state of the process: the store, how many random numbers were drawn, and the
  calls of \<open>fetch\<close> made so far (URL and request headers).\<close>

record state =
  memoryCache :: "string \<rightharpoonup> stored"
  randoms :: nat
  fetches :: "(string \<times> headers) list"

text \<open>\<open>memoryCache.set(k, v)\<close>\<close>

definition cache_set :: "string \<Rightarrow> stored \<Rightarrow> state \<Rightarrow> state" where
  "cache_set k v s = s\<lparr>memoryCache := (memoryCache s)(k \<mapsto> v)\<rparr>"

text \<open>\<open>await fetch(u, {method: 'GET', headers: hs})\<close>\<close>

definition fetch :: "env \<Rightarrow> string \<Rightarrow> headers \<Rightarrow> state \<Rightarrow> fetch_result \<times> state" where
  "fetch E u hs s = (network E (length (fetches s)) u hs, s\<lparr>fetches := fetches s @ [(u, hs)]\<rparr>)"

text \<open>\<open>process.env.BACKEND || 'https://api.v1.mk'\<close>\<close>

definition BACKEND :: "env \<Rightarrow> string" where
  "BACKEND E =
     (case env_BACKEND E of
        None \<Rightarrow> ''https://api.v1.mk''
      | Some b \<Rightarrow> if b = [] then ''https://api.v1.mk'' else b)"

text \<open>
  \<open>Object.fromEntries(entries)\<close>: a later entry of the same name replaces the value of the
  earlier one. The properties of the object, and so the pairs of its JSON text, come in the
  order of the language: first the names that are array indices (the decimal numerals
  without a leading zero, up to \<open>2^32 - 2\<close>) by their number, then the other names in the
  order in which they were added.
\<close>

definition digits_value :: "string \<Rightarrow> nat" where
  "digits_value name = foldl (\<lambda>n c. 10 * n + (of_char c - 48)) 0 name"

definition array_index :: "string \<Rightarrow> nat option" where
  "array_index name =
     (if name \<noteq> []
         \<and> list_all (\<lambda>c. 48 \<le> (of_char c :: nat) \<and> (of_char c :: nat) \<le> 57) name
         \<and> (name = ''0'' \<or> hd name \<noteq> CHR ''0'')
         \<and> digits_value name \<le> 4294967294
      then Some (digits_value name) else None)"

definition property_order :: "headers \<Rightarrow> headers" where
  "property_order obj =
     sort_key (\<lambda>(k, v). case array_index k of Some n \<Rightarrow> n | None \<Rightarrow> 0)
       (filter (\<lambda>(k, v). array_index k \<noteq> None) obj)
     @ filter (\<lambda>(k, v). array_index k = None) obj"

definition fromEntries :: "headers \<Rightarrow> headers" where
  "fromEntries es = property_order (foldl (\<lambda>obj (k, v). AList.update k v obj) [] es)"

section \<open>The key generator\<close>

definition chars :: string where
  "chars = ''abcdefghijklmnopqrstuvwxyz0123456789''"

text \<open>
  \<open>Math.random()\<close> lies in \<open>[0, 1)\<close>, so \<open>Math.floor(Math.random() * chars.length)\<close> is an index
  below 36: the draw \<open>random E n\<close> is taken modulo the length of \<open>chars\<close>. The loop appends one
  character per round.
\<close>

fun generateRandomStr :: "env \<Rightarrow> nat \<Rightarrow> state \<Rightarrow> string \<times> state" where
  "generateRandomStr E 0 s = ([], s)"
| "generateRandomStr E (Suc len) s =
     (let c = chars ! (random E (randoms s) mod length chars);
          (result, s') = generateRandomStr E len (s\<lparr>randoms := randoms s + 1\<rparr>)
      in (c # result, s'))"

section \<open>The fan-out resolver (the variant with the self-decode fallback)\<close>

text \<open>\<open>getHost(request)\<close>\<close>

definition getHost :: "request \<Rightarrow> string" where
  "getHost request = url_protocol (req_url request) @ ''//'' @ url_host (req_url request)"

definition subDir :: string where
  "subDir = ''subscription''"

text \<open>\<open>request.headers.get('User-Agent') || dflt\<close>\<close>

definition user_agent_or :: "request \<Rightarrow> string \<Rightarrow> string" where
  "user_agent_or request dflt =
     (case req_user_agent request of
        None \<Rightarrow> dflt
      | Some ua \<Rightarrow> if ua = [] then dflt else ua)"

text \<open>\<open>parsed.data.split(/\r?\n/).filter(link => link.trim() !== '')\<close>\<close>

definition links_of :: "string \<Rightarrow> string list" where
  "links_of decoded = filter (\<lambda>link. trim link \<noteq> []) (split_lines decoded)"

text \<open>The loop \<open>for (const link of links)\<close>: a fresh key per link, the link and its headers
  stored, then the URI pushed.\<close>

fun for_links :: "env \<Rightarrow> string \<Rightarrow> string list \<Rightarrow> string list \<times> state \<Rightarrow> string list \<times> state" where
  "for_links E host [] (replacedURIs, s) = (replacedURIs, s)"
| "for_links E host (link # links) (replacedURIs, s) =
     (let (nodeKey, s1) = generateRandomStr E 16 s;
          s2 = cache_set nodeKey (Text link) s1;
          s3 = cache_set (nodeKey @ ''_headers'') (Json [(''Content-Type'', ''text/plain'')]) s2
      in for_links E host links (replacedURIs @ [host @ ''/'' @ subDir @ ''/'' @ nodeKey], s3))"

text \<open>A branch that stores one string under \<open>key\<close> with one \<open>Content-Type\<close> and pushes the
  URI of \<open>key\<close>: the three statements occur four times in the loop body.\<close>

definition store_and_push ::
  "string \<Rightarrow> string \<Rightarrow> string \<Rightarrow> string \<Rightarrow> string list \<times> state \<Rightarrow> string list \<times> state" where
  "store_and_push host key content ctype = (\<lambda>(replacedURIs, s).
     (let s1 = cache_set key (Text content) s;
          s2 = cache_set (key @ ''_headers'') (Json [(''Content-Type'', ctype)]) s1
      in (replacedURIs @ [host @ ''/'' @ subDir @ ''/'' @ key], s2)))"

text \<open>The headers of the \<open>fetch\<close> of a segment.\<close>

definition segment_fetch_headers :: "request \<Rightarrow> headers" where
  "segment_fetch_headers request =
     [(''User-Agent'', user_agent_or request
         ''Mozilla/5.0 (Windows NT 10.0; Win64; x64) AppleWebKit/537.36''),
      (''Accept'', ''text/html,application/xhtml+xml,application/xml;q=0.9,*/*;q=0.8'')]"

text \<open>The branch of a segment that starts with \<open>https://\<close> or \<open>http://\<close>. Every
  \<open>continue\<close>, and the \<open>catch\<close> around the whole block, leaves the list and the store as
  they are.\<close>

definition url_branch ::
  "env \<Rightarrow> request \<Rightarrow> string \<Rightarrow> string \<Rightarrow> string \<Rightarrow> string list \<times> state \<Rightarrow> string list \<times> state" where
  "url_branch E request host key urlPart = (\<lambda>(replacedURIs, s).
     (let (result, s1) = fetch E urlPart (segment_fetch_headers request) s
      in case result of
           Rejected e \<Rightarrow> (replacedURIs, s1)
         | Resolved response \<Rightarrow>
             if \<not> up_ok response then (replacedURIs, s1)
             else (case up_text response of
                     Inl e \<Rightarrow> (replacedURIs, s1)
                   | Inr content \<Rightarrow>
                       if content = [] \<or> length (trim content) = 0 then (replacedURIs, s1)
                       else
                         (let parsed = parseData content;
                              s2 = cache_set (key @ ''_headers'')
                                     (Json (fromEntries (up_headers response))) s1
                          in if format parsed = ''base64''
                             then for_links E host (links_of (data parsed)) (replacedURIs, s2)
                             else if format parsed = ''yaml''
                             then store_and_push host key content ''text/plain;charset=UTF-8''
                                    (replacedURIs, s2)
                             else store_and_push host key content ''text/plain;charset=UTF-8''
                                    (replacedURIs, s2)))))"

text \<open>The last branch: the segment is neither a URL nor a node link.\<close>

definition decode_branch ::
  "env \<Rightarrow> string \<Rightarrow> string \<Rightarrow> string \<Rightarrow> string list \<times> state \<Rightarrow> string list \<times> state" where
  "decode_branch E host key urlPart = (\<lambda>(replacedURIs, s).
     (case atob (remove_spaces urlPart) of
        None \<Rightarrow> store_and_push host key urlPart ''text/plain'' (replacedURIs, s)
      | Some decoded \<Rightarrow>
          (let parsed = parseData decoded
           in if format parsed = ''base64''
              then for_links E host (links_of (data parsed)) (replacedURIs, s)
              else (replacedURIs, s))))"

text \<open>The body of \<open>for (const urlPart of urlParts)\<close> after the key is drawn.\<close>

definition segment ::
  "env \<Rightarrow> request \<Rightarrow> string \<Rightarrow> string \<Rightarrow> string \<Rightarrow> string list \<times> state \<Rightarrow> string list \<times> state" where
  "segment E request host key urlPart acc =
     (if startsWith urlPart ''https://'' \<or> startsWith urlPart ''http://''
      then url_branch E request host key urlPart acc
      else if direct_link urlPart
      then store_and_push host key urlPart ''text/plain'' acc
      else decode_branch E host key urlPart acc)"

fun for_urlParts ::
  "env \<Rightarrow> request \<Rightarrow> string \<Rightarrow> string list \<Rightarrow> string list \<times> state \<Rightarrow> string list \<times> state" where
  "for_urlParts E request host [] acc = acc"
| "for_urlParts E request host (urlPart # urlParts) (replacedURIs, s) =
     (let (key, s1) = generateRandomStr E 16 s
      in for_urlParts E request host urlParts (segment E request host key urlPart (replacedURIs, s1)))"

text \<open>\<open>targetUrl.split('|').filter(part => part.trim() !== '')\<close>\<close>

definition urlParts_of :: "string \<Rightarrow> string list" where
  "urlParts_of targetUrl = filter (\<lambda>part. trim part \<noteq> []) (split_char CHR ''|'' targetUrl)"

definition all_invalid :: response where
  "all_invalid =
     \<lparr>resp_status = 400,
      resp_body = Text ''Error: All subscription links are invalid or returned empty content.'',
      resp_headers = [(''Content-Type'', ''text/plain'')]\<rparr>"

text \<open>The rest of \<open>processSubscription\<close> once \<open>url\<close> is there: the segments, the loop, and
  the answer.\<close>

definition resolve :: "env \<Rightarrow> request \<Rightarrow> string \<Rightarrow> state \<Rightarrow> response \<times> state" where
  "resolve E request targetUrl s =
     (let urlParts = urlParts_of targetUrl
      in if length urlParts = 0
         then (\<lparr>resp_status = 400, resp_body = Text ''There are no valid links'',
                resp_headers = []\<rparr>, s)
         else
           (let (replacedURIs, s') = for_urlParts E request (getHost request) urlParts ([], s)
            in if length replacedURIs = 0 then (all_invalid, s')
               else (\<lparr>resp_status = 200,
                      resp_body = Text (btoa (join [CHR 0x0D, CHR 0x0A] replacedURIs)),
                      resp_headers = [(''Content-Type'', ''text/plain''),
                                      (''Access-Control-Allow-Origin'', ''*'')]\<rparr>, s')))"

text \<open>\<open>url.searchParams.get(name)\<close>: the first value of that name; \<open>!value\<close> holds of \<open>null\<close>
  and of the empty string.\<close>

definition searchParams_get :: "url \<Rightarrow> string \<Rightarrow> string option" where
  "searchParams_get u name = map_of (url_searchParams u) name"

definition processSubscription :: "env \<Rightarrow> request \<Rightarrow> url \<Rightarrow> string \<Rightarrow> state \<Rightarrow> response \<times> state" where
  "processSubscription E request u backend s =
     (case searchParams_get u ''url'' of
        None \<Rightarrow> (\<lparr>resp_status = 400, resp_body = Text ''Missing url parameter'',
                   resp_headers = []\<rparr>, s)
      | Some targetUrl \<Rightarrow>
          if targetUrl = []
          then (\<lparr>resp_status = 400, resp_body = Text ''Missing url parameter'',
                 resp_headers = []\<rparr>, s)
          else resolve E request targetUrl s)"

section \<open>The dispatcher and the subscription route\<close>

text \<open>\<open>s.replace(pat, rep)\<close> with a string pattern and a replacement without \<open>$\<close>: the
  first occurrence only.\<close>

fun replace_first :: "string \<Rightarrow> string \<Rightarrow> string \<Rightarrow> string" where
  "replace_first pat rep [] = (if pat = [] then rep else [])"
| "replace_first pat rep (c # cs) =
     (if prefix pat (c # cs) then rep @ drop (length pat) (c # cs)
      else c # replace_first pat rep cs)"

text \<open>
  \<open>url.pathname\<close> is not the path of the request as it was sent: the URL parser of the
  platform has worked on it. Of that parser (the URL standard, for \<open>http\<close> and \<open>https\<close>)
  this is the part that decides which keys can reach the handler: a backslash counts as a
  slash, the path is cut into segments at the slashes, a segment \<open>.\<close> is dropped, and a
  segment \<open>..\<close> is dropped together with the segment before it (\<open>%2e\<close> counts as a dot);
  a dot segment in the last place leaves an empty segment. The percent-encoding the parser
  applies to some characters is not modelled.
\<close>

definition single_dot :: "string \<Rightarrow> bool" where
  "single_dot seg = (seg \<in> set [''.'', ''%2e'', ''%2E''])"

definition double_dot :: "string \<Rightarrow> bool" where
  "double_dot seg =
     (seg \<in> set [''..'', ''.%2e'', ''.%2E'', ''%2e.'', ''%2E.'',
                  ''%2e%2e'', ''%2e%2E'', ''%2E%2e'', ''%2E%2E''])"

fun path_segments :: "string list \<Rightarrow> string list \<Rightarrow> string list" where
  "path_segments path [] = path"
| "path_segments path [seg] =
     (if double_dot seg then butlast path @ [[]]
      else if single_dot seg then path @ [[]]
      else path @ [seg])"
| "path_segments path (seg # next # rest) =
     (if double_dot seg then path_segments (butlast path) (next # rest)
      else if single_dot seg then path_segments path (next # rest)
      else path_segments (path @ [seg]) (next # rest))"

text \<open>The pathname for the path of a request, which starts with a slash.\<close>

definition pathname_of :: "string \<Rightarrow> string" where
  "pathname_of raw =
     CHR ''/'' # join ''/''
       (path_segments []
          (split_char CHR ''/'' (map (\<lambda>c. if c = CHR 0x5C then CHR ''/'' else c) (tl raw))))"

text \<open>
  What the handler answers. The root page and the version route are the glue around the
  pipeline: only that they are chosen is modelled, not what they send or fetch.
  \<open>ForeignJson\<close> is \<open>JSON.parse\<close> applied to a stored text that \<open>JSON.stringify\<close> did not
  write, the one place where the model does not say what the code does.
\<close>

datatype reply = Reply response | RootPage | VersionPage | ForeignJson

text \<open>The block of the handler for a path that starts with \<open>/subscription/\<close>.\<close>

definition serve_stored :: "string \<Rightarrow> state \<Rightarrow> reply" where
  "serve_stored path s =
     (let key = replace_first ''/subscription/'' [] path
      in if key = [] \<or> includes_str key ''/'' \<or> includes_str key ''..''
         then Reply \<lparr>resp_status = 400, resp_body = Text ''Invalid key'', resp_headers = []\<rparr>
         else
           (let content = memoryCache s key;
                headersStr = memoryCache s (key @ ''_headers'')
            in case content of
                 None \<Rightarrow>
                   Reply \<lparr>resp_status = 404, resp_body = Text ''Not Found'', resp_headers = []\<rparr>
               | Some c \<Rightarrow>
                   if c = Text []
                   then Reply \<lparr>resp_status = 404, resp_body = Text ''Not Found'',
                               resp_headers = []\<rparr>
                   else
                     (case headersStr of
                        None \<Rightarrow>
                          Reply \<lparr>resp_status = 200, resp_body = c,
                                 resp_headers = AList.update ''Access-Control-Allow-Origin'' ''*''
                                   [(''Content-Type'', ''text/plain;charset=UTF-8'')]\<rparr>
                      | Some (Json h) \<Rightarrow>
                          Reply \<lparr>resp_status = 200, resp_body = c,
                                 resp_headers = AList.update ''Access-Control-Allow-Origin'' ''*'' h\<rparr>
                      | Some (Text t) \<Rightarrow>
                          if t = []
                          then Reply \<lparr>resp_status = 200, resp_body = c,
                                 resp_headers = AList.update ''Access-Control-Allow-Origin'' ''*''
                                   [(''Content-Type'', ''text/plain;charset=UTF-8'')]\<rparr>
                          else ForeignJson)))"

definition handler :: "env \<Rightarrow> request \<Rightarrow> state \<Rightarrow> reply \<times> state" where
  "handler E request s =
     (let u = req_url request
      in if url_pathname u = ''/'' \<or> url_pathname u = [] then (RootPage, s)
         else if url_pathname u = ''/version'' then (VersionPage, s)
         else if startsWith (url_pathname u) ''/subscription/''
         then (serve_stored (url_pathname u) s, s)
         else if url_pathname u = ''/sub'' \<or> startsWith (url_pathname u) ''/sub''
         then (let (r, s') = processSubscription E request u (BACKEND E) s in (Reply r, s'))
         else (Reply \<lparr>resp_status = 404, resp_body = Text ''Not found'', resp_headers = []\<rparr>, s))"

section \<open>The variant with the backend forwarder\<close>

text \<open>
  \<open>content.replace(/pat/g, rep)\<close> for a pattern that is a literal text. The scan goes from
  left to right and continues after each match. In the replacement \<open>$$\<close> is a dollar,
  \<open>$&\<close> the match, \<open>$`\<close> the text before the match and \<open>$'\<close> the text after it; the
  patterns have no groups, so any other \<open>$\<close> stands for itself.
\<close>

fun substitution :: "string \<Rightarrow> string \<Rightarrow> string \<Rightarrow> string \<Rightarrow> string" where
  "substitution matched pre post (c # d # rep) =
     (if c = CHR ''$'' \<and> d = CHR ''$'' then CHR ''$'' # substitution matched pre post rep
      else if c = CHR ''$'' \<and> d = CHR ''&'' then matched @ substitution matched pre post rep
      else if c = CHR ''$'' \<and> d = CHR 0x60 then pre @ substitution matched pre post rep
      else if c = CHR ''$'' \<and> d = CHR 0x27 then post @ substitution matched pre post rep
      else c # substitution matched pre post (d # rep))"
| "substitution matched pre post [c] = [c]"
| "substitution matched pre post [] = []"

function replace_from :: "string \<Rightarrow> string \<Rightarrow> string \<Rightarrow> string \<Rightarrow> string" where
  "replace_from pat rep pre [] = []"
| "replace_from pat rep pre (c # cs) =
     (if pat \<noteq> [] \<and> prefix pat (c # cs)
      then substitution pat pre (drop (length pat) (c # cs)) rep
           @ replace_from pat rep (pre @ pat) (drop (length pat) (c # cs))
      else c # replace_from pat rep (pre @ [c]) cs)"
  by pat_completeness auto
termination
  by (relation "measure (\<lambda>(pat, rep, pre, s). length s)") auto

definition replace_all :: "string \<Rightarrow> string \<Rightarrow> string \<Rightarrow> string" where
  "replace_all pat rep s = replace_from pat rep [] s"

text \<open>The four replacements of \<open>forwardToBackend\<close>, in their order.\<close>

definition rewrite_domains :: "string \<Rightarrow> string \<Rightarrow> string \<Rightarrow> string" where
  "rewrite_domains host currentHost content =
     (let c1 = replace_all ''https://bulianglin2023.dev'' host content;
          c2 = replace_all ''bulianglin2023.dev'' currentHost c1;
          c3 = replace_all ''https://api.v1.mk'' host c2;
          c4 = replace_all ''api.v1.mk'' currentHost c3
      in c4)"

text \<open>A number in a template string.\<close>

fun show_nat :: "nat \<Rightarrow> string" where
  "show_nat n =
     (if n < 10 then [char_of (48 + n)] else show_nat (n div 10) @ [char_of (48 + n mod 10)])"

text \<open>
  \<open>new Response(body, {status: n})\<close> with a body throws when \<open>n\<close> is outside 200..599 or is
  one of the statuses that admit no body. In \<open>forwardToBackend\<close> the answer for a backend
  status that is not 2xx is built inside the \<open>try\<close>, so for such a status the \<open>catch\<close>
  answers instead.
\<close>

definition no_body_status :: "nat \<Rightarrow> bool" where
  "no_body_status n = (n < 200 \<or> 599 < n \<or> n \<in> {204, 205, 304})"

text \<open>The headers of the \<open>fetch\<close> to the backend.\<close>

definition backend_fetch_headers :: "request \<Rightarrow> headers" where
  "backend_fetch_headers request =
     [(''User-Agent'', user_agent_or request
         ''Mozilla/5.0 (Windows NT 10.0; Win64; x64) AppleWebKit/537.36''),
      (''Accept'', ''text/plain,*/*'')]"

definition forwardToBackend ::
  "env \<Rightarrow> request \<Rightarrow> url \<Rightarrow> string \<Rightarrow> string \<Rightarrow> string \<Rightarrow> state \<Rightarrow> response \<times> state" where
  "forwardToBackend E request u backend host subDir' s =
     (let backendUrl = backend @ url_pathname u @ url_search u;
          (result, s1) = fetch E backendUrl (backend_fetch_headers request) s
      in case result of
           Rejected msg \<Rightarrow>
             (\<lparr>resp_status = 500, resp_body = Text (''Error forwarding to backend: '' @ msg),
               resp_headers = []\<rparr>, s1)
         | Resolved response \<Rightarrow>
             if \<not> up_ok response
             then (if no_body_status (up_status response)
                   then (\<lparr>resp_status = 500,
                          resp_body = Text (''Error forwarding to backend: ''
                                            @ constructor_message E (up_status response)),
                          resp_headers = []\<rparr>, s1)
                   else (\<lparr>resp_status = up_status response,
                          resp_body = Text (''Backend error: '' @ show_nat (up_status response)),
                          resp_headers = []\<rparr>, s1))
             else (case up_text response of
                     Inl msg \<Rightarrow>
                       (\<lparr>resp_status = 500,
                         resp_body = Text (''Error forwarding to backend: '' @ msg),
                         resp_headers = []\<rparr>, s1)
                   | Inr content \<Rightarrow>
                       (\<lparr>resp_status = 200,
                         resp_body = Text (rewrite_domains host (url_host u) content),
                         resp_headers =
                           [(''Content-Type'',
                             (case map_of (up_headers response) ''content-type'' of
                                None \<Rightarrow> ''text/plain''
                              | Some t \<Rightarrow> if t = [] then ''text/plain'' else t)),
                            (''Access-Control-Allow-Origin'', ''*'')]\<rparr>, s1)))"

text \<open>The loop of this variant: a segment that is neither a URL nor a node link has no
  branch.\<close>

definition segment_fwd ::
  "env \<Rightarrow> request \<Rightarrow> string \<Rightarrow> string \<Rightarrow> string \<Rightarrow> string list \<times> state \<Rightarrow> string list \<times> state" where
  "segment_fwd E request host key urlPart acc =
     (if startsWith urlPart ''https://'' \<or> startsWith urlPart ''http://''
      then url_branch E request host key urlPart acc
      else if direct_link urlPart
      then store_and_push host key urlPart ''text/plain'' acc
      else acc)"

fun for_urlParts_fwd ::
  "env \<Rightarrow> request \<Rightarrow> string \<Rightarrow> string list \<Rightarrow> string list \<times> state \<Rightarrow> string list \<times> state" where
  "for_urlParts_fwd E request host [] acc = acc"
| "for_urlParts_fwd E request host (urlPart # urlParts) (replacedURIs, s) =
     (let (key, s1) = generateRandomStr E 16 s
      in for_urlParts_fwd E request host urlParts
           (segment_fwd E request host key urlPart (replacedURIs, s1)))"

definition resolve_fwd :: "env \<Rightarrow> request \<Rightarrow> string \<Rightarrow> state \<Rightarrow> response \<times> state" where
  "resolve_fwd E request targetUrl s =
     (let urlParts = urlParts_of targetUrl
      in if length urlParts = 0
         then (\<lparr>resp_status = 400, resp_body = Text ''There are no valid links'',
                resp_headers = []\<rparr>, s)
         else
           (let (replacedURIs, s') = for_urlParts_fwd E request (getHost request) urlParts ([], s)
            in if length replacedURIs = 0 then (all_invalid, s')
               else (\<lparr>resp_status = 200,
                      resp_body = Text (btoa (join [CHR 0x0D, CHR 0x0A] replacedURIs)),
                      resp_headers = [(''Content-Type'', ''text/plain''),
                                      (''Access-Control-Allow-Origin'', ''*'')]\<rparr>, s')))"

text \<open>\<open>if (value)\<close> for what \<open>searchParams.get\<close> returns.\<close>

definition truthy :: "string option \<Rightarrow> bool" where
  "truthy v = (case v of None \<Rightarrow> False | Some t \<Rightarrow> t \<noteq> [])"

definition processSubscription_fwd ::
  "env \<Rightarrow> request \<Rightarrow> url \<Rightarrow> string \<Rightarrow> state \<Rightarrow> response \<times> state" where
  "processSubscription_fwd E request u backend s =
     (let host = getHost request;
          target = searchParams_get u ''target''
      in case searchParams_get u ''url'' of
           None \<Rightarrow> (\<lparr>resp_status = 400, resp_body = Text ''Missing url parameter'',
                      resp_headers = []\<rparr>, s)
         | Some targetUrl \<Rightarrow>
             if targetUrl = []
             then (\<lparr>resp_status = 400, resp_body = Text ''Missing url parameter'',
                    resp_headers = []\<rparr>, s)
             else if truthy target
             then forwardToBackend E request u backend host subDir s
             else resolve_fwd E request targetUrl s)"

definition handler_fwd :: "env \<Rightarrow> request \<Rightarrow> state \<Rightarrow> reply \<times> state" where
  "handler_fwd E request s =
     (let u = req_url request
      in if url_pathname u = ''/'' \<or> url_pathname u = [] then (RootPage, s)
         else if url_pathname u = ''/version'' then (VersionPage, s)
         else if startsWith (url_pathname u) ''/subscription/''
         then (serve_stored (url_pathname u) s, s)
         else if url_pathname u = ''/sub'' \<or> startsWith (url_pathname u) ''/sub''
         then (let (r, s') = processSubscription_fwd E request u (BACKEND E) s in (Reply r, s'))
         else (Reply \<lparr>resp_status = 404, resp_body = Text ''Not found'', resp_headers = []\<rparr>, s))"

section \<open>Example surroundings\<close>

text \<open>A process with an empty store, a world in which the \<open>n\<close>-th random draw is \<open>n\<close>
  and no host can be reached, and a request to \<open>https://example.com/sub\<close> with given query
  pairs.\<close>

definition empty_state :: state where
  "empty_state = \<lparr>memoryCache = Map.empty, randoms = 0, fetches = []\<rparr>"

definition offline_env :: env where
  "offline_env =
     \<lparr>random = (\<lambda>n. n), network = (\<lambda>n u hs. Rejected ''unreachable''), env_BACKEND = None, constructor_message = (\<lambda>n. ''Invalid status'')\<rparr>"

definition example_request :: "string \<Rightarrow> (string \<times> string) list \<Rightarrow> request" where
  "example_request query pairs =
     \<lparr>req_url = \<lparr>url_protocol = ''https:'', url_host = ''example.com'', url_pathname = ''/sub'',
                  url_search = query, url_searchParams = pairs\<rparr>,
      req_user_agent = None\<rparr>"

text \<open>A request to \<open>https://example.com\<close> with a given path, as the handler gets it; and
  the request for a key under \<open>/subscription/\<close>.\<close>

definition request_to :: "string \<Rightarrow> request" where
  "request_to raw =
     \<lparr>req_url = \<lparr>url_protocol = ''https:'', url_host = ''example.com'',
                  url_pathname = pathname_of raw,
                  url_search = [], url_searchParams = []\<rparr>,
      req_user_agent = None\<rparr>"

definition get_subscription :: "string \<Rightarrow> request" where
  "get_subscription key = request_to (''/subscription/'' @ key)"

text \<open>A world in which every random draw is 0, so that every key is the same.\<close>

definition stuck_env :: env where
  "stuck_env =
     \<lparr>random = (\<lambda>n. 0), network = (\<lambda>n u hs. Rejected ''unreachable''), env_BACKEND = None,
      constructor_message = (\<lambda>n. ''Invalid status'')\<rparr>"

text \<open>A world in which every URL answers 200 with a Clash configuration and its own
  content type.\<close>

definition yaml_env :: env where
  "yaml_env =
     \<lparr>random = (\<lambda>n. n),
      network = (\<lambda>n u hs. Resolved \<lparr>up_status = 200,
                   up_headers = [(''content-type'', ''application/x-yaml'')],
                   up_text = Inr ''proxies: []''\<rparr>),
      env_BACKEND = None, constructor_message = (\<lambda>n. ''Invalid status'')\<rparr>"

text \<open>A world in which every URL answers 200 with the base64 of two node links.\<close>

definition base64_env :: env where
  "base64_env =
     \<lparr>random = (\<lambda>n. n),
      network = (\<lambda>n u hs. Resolved \<lparr>up_status = 200,
                   up_headers = [(''content-type'', ''application/octet-stream'')],
                   up_text = Inr ''dm1lc3M6Ly9hYmMKdmxlc3M6Ly94eXo=''\<rparr>),
      env_BACKEND = None, constructor_message = (\<lambda>n. ''Invalid status'')\<rparr>"

text \<open>A world in which every URL, the backend among them, answers 200 with a given text;
  and a request for a conversion that arrives at a given host.\<close>

definition answering_env :: "string \<Rightarrow> env" where
  "answering_env answer =
     \<lparr>random = (\<lambda>n. n),
      network = (\<lambda>n u hs. Resolved \<lparr>up_status = 200,
                   up_headers = [(''content-type'', ''text/plain'')],
                   up_text = Inr answer\<rparr>),
      env_BACKEND = None, constructor_message = (\<lambda>n. ''Invalid status'')\<rparr>"

definition request_at :: "string \<Rightarrow> request" where
  "request_at hostname =
     \<lparr>req_url = \<lparr>url_protocol = ''https:'', url_host = hostname, url_pathname = ''/sub'',
                  url_search = ''?url=X&target=clash'',
                  url_searchParams = [(''url'', ''X''), (''target'', ''clash'')]\<rparr>,
      req_user_agent = None\<rparr>"

section \<open>Notions of the statements\<close>

text \<open>A URI of the output list can be resolved in a state: it is the URI of a key of 16
  characters of \<open>chars\<close> under which the store holds a non-empty text, and the store holds
  headers for that key.\<close>

definition resolvable :: "string \<Rightarrow> state \<Rightarrow> string \<Rightarrow> bool" where
  "resolvable host s uri =
     (\<exists>k c h. uri = host @ ''/'' @ subDir @ ''/'' @ k \<and> length k = 16 \<and> set k \<subseteq> set chars
        \<and> memoryCache s k = Some (Text c) \<and> c \<noteq> []
        \<and> memoryCache s (k @ ''_headers'') = Some (Json h))"

text \<open>The fetch of a segment fails: the \<open>fetch\<close> is rejected, the status is not 2xx,
  reading the body throws, or the body is empty or blank.\<close>

definition fetch_failed :: "fetch_result \<Rightarrow> bool" where
  "fetch_failed r =
     (case r of
        Rejected e \<Rightarrow> True
      | Resolved response \<Rightarrow>
          \<not> up_ok response
          \<or> (case up_text response of
                Inl e \<Rightarrow> True
              | Inr content \<Rightarrow> content = [] \<or> trim content = []))"

text \<open>
  The rewriting of the backend's answer as the spec words it: every occurrence of a
  placeholder domain is replaced, the form \<open>https://domain\<close> by the origin of the request
  and the bare domain by its host. One pass over the text, from left to right: where a
  form with \<open>https://\<close> starts it is replaced, else where a bare domain starts it is
  replaced, else the character stays.
\<close>

function replace_placeholders :: "string \<Rightarrow> string \<Rightarrow> string \<Rightarrow> string" where
  "replace_placeholders origin bare [] = []"
| "replace_placeholders origin bare (c # cs) =
     (if prefix ''https://bulianglin2023.dev'' (c # cs)
      then origin @ replace_placeholders origin bare (drop 26 (c # cs))
      else if prefix ''https://api.v1.mk'' (c # cs)
      then origin @ replace_placeholders origin bare (drop 17 (c # cs))
      else if prefix ''bulianglin2023.dev'' (c # cs)
      then bare @ replace_placeholders origin bare (drop 18 (c # cs))
      else if prefix ''api.v1.mk'' (c # cs)
      then bare @ replace_placeholders origin bare (drop 9 (c # cs))
      else c # replace_placeholders origin bare cs)"
  by pat_completeness auto
termination
  by (relation "measure (\<lambda>(origin, bare, s). length s)") auto

text \<open>
  A pattern and an inserted text are apart: no occurrence of the pattern can begin inside
  the inserted text (the pattern and a non-empty end of the inserted text are never one the
  beginning of the other), and none that began before the inserted text can reach into it
  (the same of the inserted text and a proper non-empty end of the pattern).
\<close>

definition begins_nowhere :: "string \<Rightarrow> string \<Rightarrow> bool" where
  "begins_nowhere pat ins =
     list_all (\<lambda>j. \<not> prefix (drop j ins) pat \<and> \<not> prefix pat (drop j ins)) [0..<length ins]"

definition reaches_not :: "string \<Rightarrow> string \<Rightarrow> bool" where
  "reaches_not pat ins =
     list_all (\<lambda>j. \<not> prefix (drop j pat) ins \<and> \<not> prefix ins (drop j pat)) [1..<length pat]"

definition apart :: "string \<Rightarrow> string \<Rightarrow> bool" where
  "apart pat ins = (begins_nowhere pat ins \<and> reaches_not pat ins)"

text \<open>The origin and the host of a request leave the placeholders alone: they have no
  \<open>$\<close>, and each is apart from the patterns of the replacements that come after the one
  that inserts it.\<close>

definition host_clear :: "string \<Rightarrow> string \<Rightarrow> bool" where
  "host_clear host currentHost =
     (CHR ''$'' \<notin> set host \<and> CHR ''$'' \<notin> set currentHost
      \<and> apart ''bulianglin2023.dev'' host
      \<and> apart ''https://api.v1.mk'' host
      \<and> apart ''api.v1.mk'' host
      \<and> apart ''https://api.v1.mk'' currentHost
      \<and> apart ''api.v1.mk'' currentHost)"

section \<open>The classifier: precedence and totality\<close>

lemma includes_str_set: "includes_str s pat \<Longrightarrow> set pat \<subseteq> set s"
  by (induction s) (auto dest!: set_mono_prefix)

lemma colon_not_base64: "base64Pattern t \<Longrightarrow> CHR '':'' \<notin> set t"
  by (auto simp: base64Pattern_def list_all_iff b64_value_def is_space_def Let_def)

lemma base64Pattern_no_colon_text:
  "base64Pattern t \<Longrightarrow> CHR '':'' \<in> set pat \<Longrightarrow> \<not> includes_str t pat"
  using includes_str_set colon_not_base64 by blast

lemma base64Pattern_not_direct: "base64Pattern t \<Longrightarrow> \<not> direct_link t"
proof
  assume b: "base64Pattern t" and d: "direct_link t"
  then obtain scheme where "prefix (scheme @ ''://'') t"
    by (auto simp: direct_link_def list_ex_iff)
  then have "CHR '':'' \<in> set t"
    using set_mono_prefix by fastforce
  with b show False using colon_not_base64 by blast
qed

text \<open>
  C1. \<open>parseData\<close> trims its argument. When the trimmed text matches the base64 pattern, is
  longer than 20 characters, \<open>atob\<close> returns and the decoded text contains \<open>://\<close>, the result
  is format \<open>base64\<close> with the decoded text. In every other case (also when \<open>atob\<close> throws
  or the decoded text has no \<open>://\<close>) the result is decided, in this order, by the yaml check,
  the node-link check, and otherwise it is \<open>unknown\<close>, each with the trimmed text.
\<close>

theorem parseData_precedence:
  "(base64Pattern (trim dat) \<and> 20 < length (trim dat)
      \<and> atob (remove_spaces (trim dat)) = Some decoded \<and> includes_str decoded ''://''
    \<longrightarrow> parseData dat = \<lparr>format = ''base64'', data = decoded\<rparr>)
   \<and> (\<not> (base64Pattern (trim dat) \<and> 20 < length (trim dat)
          \<and> (\<exists>d. atob (remove_spaces (trim dat)) = Some d \<and> includes_str d ''://''))
    \<longrightarrow> parseData dat =
          (if includes_str (trim dat) ''proxies:'' \<or> includes_str (trim dat) ''Proxy:''
           then \<lparr>format = ''yaml'', data = trim dat\<rparr>
           else if direct_link (trim dat) then \<lparr>format = ''direct'', data = trim dat\<rparr>
           else \<lparr>format = ''unknown'', data = trim dat\<rparr>))"
  by (auto simp: parseData_def decoded_links_def Let_def split: option.splits)

text \<open>The theorem at three inputs: the base64 of two node links, a Clash configuration
  with surrounding blanks, and the base64 of a text without \<open>://\<close>, which falls through.\<close>

theorem parseData_precedence_witness:
  "parseData ''dm1lc3M6Ly9hYmMKdmxlc3M6Ly94eXo=''
     = \<lparr>format = ''base64'', data = ''vmess://abc'' @ [CHR 0x0A] @ ''vless://xyz''\<rparr>
   \<and> parseData '' proxies: [] '' = \<lparr>format = ''yaml'', data = ''proxies: []''\<rparr>
   \<and> parseData ''aGVsbG8gd29ybGQgaGVsbG8gd29ybGQ=''
     = \<lparr>format = ''unknown'', data = ''aGVsbG8gd29ybGQgaGVsbG8gd29ybGQ=''\<rparr>"
proof -
  have x: "base64Pattern (trim ''dm1lc3M6Ly9hYmMKdmxlc3M6Ly94eXo='')
      \<and> 20 < length (trim ''dm1lc3M6Ly9hYmMKdmxlc3M6Ly94eXo='')
      \<and> atob (remove_spaces (trim ''dm1lc3M6Ly9hYmMKdmxlc3M6Ly94eXo=''))
          = Some (''vmess://abc'' @ [CHR 0x0A] @ ''vless://xyz'')
      \<and> includes_str (''vmess://abc'' @ [CHR 0x0A] @ ''vless://xyz'') ''://''"
    by code_simp
  have y: "trim '' proxies: [] '' = ''proxies: []''"
      "\<not> base64Pattern ''proxies: []''" "includes_str ''proxies: []'' ''proxies:''"
    by code_simp+
  have z: "trim ''aGVsbG8gd29ybGQgaGVsbG8gd29ybGQ='' = ''aGVsbG8gd29ybGQgaGVsbG8gd29ybGQ=''"
      "atob (remove_spaces ''aGVsbG8gd29ybGQgaGVsbG8gd29ybGQ='') = Some ''hello world hello world''"
      "\<not> includes_str ''hello world hello world'' ''://''"
      "\<not> includes_str ''aGVsbG8gd29ybGQgaGVsbG8gd29ybGQ='' ''proxies:''"
      "\<not> includes_str ''aGVsbG8gd29ybGQgaGVsbG8gd29ybGQ='' ''Proxy:''"
      "\<not> direct_link ''aGVsbG8gd29ybGQgaGVsbG8gd29ybGQ=''"
    by code_simp+
  show ?thesis
    using parseData_precedence [of "''dm1lc3M6Ly9hYmMKdmxlc3M6Ly94eXo=''"
            "''vmess://abc'' @ [CHR 0x0A] @ ''vless://xyz''"]
          parseData_precedence [of "'' proxies: [] ''" "[]"]
          parseData_precedence [of "''aGVsbG8gd29ybGQgaGVsbG8gd29ybGQ=''" "[]"]
          x y z
    by simp
qed

text \<open>
  C3, as the code has it. \<open>parseData\<close> returns on every string, with one of the four
  formats. A throw of \<open>atob\<close> is caught by the inner handler and the classification goes on:
  the text matched the base64 pattern, so it is neither yaml nor a node link, and the result
  is \<open>unknown\<close> with the trimmed text. (The outer handler, which returns the argument as it
  came, is entered only if \<open>trim\<close> or a test throws, which they do not on a string.)
\<close>

theorem parseData_total:
  "format (parseData dat) \<in> {''base64'', ''yaml'', ''direct'', ''unknown''}
   \<and> (base64Pattern (trim dat) \<and> 20 < length (trim dat)
        \<and> atob (remove_spaces (trim dat)) = None
      \<longrightarrow> parseData dat = \<lparr>format = ''unknown'', data = trim dat\<rparr>)"
proof (intro conjI impI)
  show "format (parseData dat) \<in> {''base64'', ''yaml'', ''direct'', ''unknown''}"
    by (simp add: parseData_def Let_def split: option.splits)
next
  assume a: "base64Pattern (trim dat) \<and> 20 < length (trim dat)
        \<and> atob (remove_spaces (trim dat)) = None"
  then have "\<not> includes_str (trim dat) ''proxies:''" "\<not> includes_str (trim dat) ''Proxy:''"
    "\<not> direct_link (trim dat)"
    using base64Pattern_no_colon_text base64Pattern_not_direct by auto
  with a show "parseData dat = \<lparr>format = ''unknown'', data = trim dat\<rparr>"
    by (simp add: parseData_def decoded_links_def Let_def)
qed

theorem parseData_total_witness:
  "format (parseData '' AAAAAAAAAAAAAAAAAAAAA'') \<in> {''base64'', ''yaml'', ''direct'', ''unknown''}
   \<and> parseData '' AAAAAAAAAAAAAAAAAAAAA'' = \<lparr>format = ''unknown'', data = ''AAAAAAAAAAAAAAAAAAAAA''\<rparr>"
proof -
  have "trim '' AAAAAAAAAAAAAAAAAAAAA'' = ''AAAAAAAAAAAAAAAAAAAAA''"
      "base64Pattern ''AAAAAAAAAAAAAAAAAAAAA''"
      "atob (remove_spaces ''AAAAAAAAAAAAAAAAAAAAA'') = None"
    by code_simp+
  then show ?thesis
    using parseData_total [of "'' AAAAAAAAAAAAAAAAAAAAA''"] by simp
qed

text \<open>The claim has the data of a failed decoding be the argument as it came. With a
  leading blank and 21 letters (a length that \<open>atob\<close> rejects) the data is the trimmed text.\<close>

theorem parseData_untrimmed_counterexample:
  "base64Pattern (trim '' AAAAAAAAAAAAAAAAAAAAA'')
   \<and> 20 < length (trim '' AAAAAAAAAAAAAAAAAAAAA'')
   \<and> atob (remove_spaces (trim '' AAAAAAAAAAAAAAAAAAAAA'')) = None
   \<and> parseData '' AAAAAAAAAAAAAAAAAAAAA''
       \<noteq> \<lparr>format = ''unknown'', data = '' AAAAAAAAAAAAAAAAAAAAA''\<rparr>"
  by code_simp

section \<open>The key generator and the store\<close>

lemma generateRandomStr_state:
  "snd (generateRandomStr E n s) = s\<lparr>randoms := randoms s + n\<rparr>"
  by (induction n arbitrary: s) (simp_all add: split_def Let_def)

lemma generateRandomStr_length: "length (fst (generateRandomStr E n s)) = n"
  by (induction n arbitrary: s) (simp_all add: split_def Let_def)

lemma generateRandomStr_chars: "set (fst (generateRandomStr E n s)) \<subseteq> set chars"
proof (induction n arbitrary: s)
  case 0
  show ?case by simp
next
  case (Suc n)
  have "chars ! (random E (randoms s) mod length chars) \<in> set chars"
    by (rule nth_mem) (simp add: chars_def)
  with Suc show ?case by (simp add: split_def Let_def)
qed

lemma generateRandomStr_eq:
  "generateRandomStr E n s = (fst (generateRandomStr E n s), s\<lparr>randoms := randoms s + n\<rparr>)"
  by (metis generateRandomStr_state prod.collapse)

lemma generateRandomStr_draws:
  "fst (generateRandomStr E n s)
     = map (\<lambda>i. chars ! (random E (randoms s + i) mod length chars)) [0..<n]"
proof (induction n arbitrary: s)
  case 0
  show ?case by simp
next
  case (Suc n)
  have "map (\<lambda>i. chars ! (random E (randoms s + i) mod length chars)) [0..<Suc n]
      = chars ! (random E (randoms s) mod length chars)
        # map (\<lambda>i. chars ! (random E (randoms s + Suc i) mod length chars)) [0..<n]"
    by (simp only: upt_conv_Cons [of 0 "Suc n"] map_Suc_upt [symmetric]) (simp add: comp_def del: upt_Suc)
  with Suc [of "s\<lparr>randoms := randoms s + 1\<rparr>"] show ?case
    by (simp add: split_def Let_def del: upt_Suc)
qed

text \<open>A generated key passes the checks of the subscription route, and differs from every
  key of headers.\<close>

lemma key_no_slash: "set k \<subseteq> set chars \<Longrightarrow> \<not> includes_str k ''/''"
  by (auto dest!: includes_str_set simp: chars_def)

lemma key_no_dots: "set k \<subseteq> set chars \<Longrightarrow> \<not> includes_str k ''..''"
  by (auto dest!: includes_str_set simp: chars_def)

lemma key_not_headers: "set k \<subseteq> set chars \<Longrightarrow> k \<noteq> k' @ ''_headers''"
  by (auto simp: chars_def)

lemma replace_first_prefix: "pat \<noteq> [] \<Longrightarrow> replace_first pat rep (pat @ k) = rep @ k"
  by (cases pat) simp_all

lemma key_of_path: "replace_first ''/subscription/'' [] (''/subscription/'' @ k) = k"
  using replace_first_prefix [of "''/subscription/''" "[]" k] by simp

text \<open>The URL parser leaves the path of a generated key as it is.\<close>

lemma split_char_plain: "sep \<notin> set k \<Longrightarrow> split_char sep k = [k]"
  by (induction k) auto

lemma split_char_at:
  "sep \<notin> set a \<Longrightarrow> split_char sep (a @ sep # rest) = a # split_char sep rest"
  by (induction a) auto

lemma split_char_nonempty: "split_char sep s \<noteq> []"
  by (induction s) (auto split: list.splits)

lemma key_no_dot_segment:
  "set k \<subseteq> set chars \<Longrightarrow> \<not> single_dot k \<and> \<not> double_dot k"
  by (auto simp: single_dot_def double_dot_def chars_def)

lemma key_no_backslash:
  "set k \<subseteq> set chars \<Longrightarrow> map (\<lambda>c. if c = CHR 0x5C then CHR ''/'' else c) k = k"
  by (rule map_idI) (auto simp: chars_def)

lemma pathname_of_key:
  assumes "set k \<subseteq> set chars"
  shows "pathname_of (''/subscription/'' @ k) = ''/subscription/'' @ k"
proof -
  have slash: "CHR ''/'' \<notin> set k"
    using assms by (auto simp: chars_def)
  have "split_char CHR ''/'' (''subscription'' @ CHR ''/'' # k) = [''subscription'', k]"
    using split_char_at [of "CHR ''/''" "''subscription''" k] split_char_plain [OF slash]
    by simp
  then have "path_segments []
      (split_char CHR ''/'' (map (\<lambda>c. if c = CHR 0x5C then CHR ''/'' else c)
         (tl (''/subscription/'' @ k)))) = [''subscription'', k]"
    using key_no_dot_segment [OF assms] key_no_backslash [OF assms]
    by (simp add: single_dot_def double_dot_def)
  then show ?thesis
    by (simp add: pathname_of_def)
qed

lemma get_subscription_key:
  "set k \<subseteq> set chars \<Longrightarrow>
   url_pathname (req_url (get_subscription k)) = ''/subscription/'' @ k"
  unfolding get_subscription_def request_to_def
  by (simp only: request.select_convs url.select_convs pathname_of_key)

section \<open>Every pushed URI can be resolved\<close>

lemma serve_stored_hit:
  assumes "k \<noteq> []" "\<not> includes_str k ''/''" "\<not> includes_str k ''..''"
    and "memoryCache s k = Some (Text c)" "c \<noteq> []"
    and "memoryCache s (k @ ''_headers'') = Some (Json h)"
  shows "serve_stored (''/subscription/'' @ k) s
    = Reply \<lparr>resp_status = 200, resp_body = Text c,
             resp_headers = AList.update ''Access-Control-Allow-Origin'' ''*'' h\<rparr>"
  using assms unfolding serve_stored_def key_of_path by (simp add: Let_def)

lemma resolvable_set_text:
  "resolvable host s u \<Longrightarrow> set k' \<subseteq> set chars \<Longrightarrow> c' \<noteq> [] \<Longrightarrow>
   resolvable host (cache_set k' (Text c') s) u"
  unfolding resolvable_def cache_set_def
  apply (elim exE conjE)
  subgoal for k c h
    apply (rule exI [of _ k])
    apply (cases "k' = k")
     apply (auto dest: key_not_headers)
    done
  done

lemma resolvable_set_json:
  "resolvable host s u \<Longrightarrow> resolvable host (cache_set (k' @ ''_headers'') (Json h') s) u"
  unfolding resolvable_def cache_set_def
  apply (elim exE conjE)
  subgoal for k c h
    apply (rule exI [of _ k])
    apply (cases "k' @ ''_headers'' = k @ ''_headers''")
     apply (auto dest: key_not_headers)
    done
  done

lemma resolvable_randoms [simp]:
  "resolvable host (s\<lparr>randoms := n\<rparr>) u = resolvable host s u"
  by (simp add: resolvable_def)

lemma resolvable_fetches [simp]:
  "resolvable host (s\<lparr>fetches := f\<rparr>) u = resolvable host s u"
  by (simp add: resolvable_def)

lemma resolvable_new:
  "length k = 16 \<Longrightarrow> set k \<subseteq> set chars \<Longrightarrow> c \<noteq> [] \<Longrightarrow>
   resolvable host (cache_set (k @ ''_headers'') (Json h) (cache_set k (Text c) s))
     (host @ ''/'' @ subDir @ ''/'' @ k)"
  unfolding resolvable_def cache_set_def
  by (rule exI [of _ k]) (auto dest: key_not_headers)

lemma store_and_push_resolvable:
  assumes "\<forall>u\<in>set uris. resolvable host s u"
    and "length k = 16" "set k \<subseteq> set chars" "c \<noteq> []"
  shows "\<forall>u\<in>set (fst (store_and_push host k c ctype (uris, s))).
           resolvable host (snd (store_and_push host k c ctype (uris, s))) u"
proof -
  let ?s2 = "cache_set (k @ ''_headers'') (Json [(''Content-Type'', ctype)]) (cache_set k (Text c) s)"
  have eq: "store_and_push host k c ctype (uris, s) = (uris @ [host @ ''/'' @ subDir @ ''/'' @ k], ?s2)"
    by (simp add: store_and_push_def Let_def)
  have old: "\<forall>u\<in>set uris. resolvable host ?s2 u"
    using assms by (blast intro: resolvable_set_json resolvable_set_text)
  have new: "resolvable host ?s2 (host @ ''/'' @ subDir @ ''/'' @ k)"
    using assms by (rule_tac resolvable_new)
  show ?thesis unfolding eq using old new by simp
qed

lemma for_links_resolvable:
  "\<forall>u\<in>set uris. resolvable host s u \<Longrightarrow> \<forall>l\<in>set links. l \<noteq> [] \<Longrightarrow>
   \<forall>u\<in>set (fst (for_links E host links (uris, s))).
      resolvable host (snd (for_links E host links (uris, s))) u"
proof (induction links arbitrary: uris s)
  case Nil
  then show ?case by simp
next
  case (Cons link links)
  let ?k = "fst (generateRandomStr E 16 s)"
  let ?s1 = "s\<lparr>randoms := randoms s + 16\<rparr>"
  let ?s3 = "cache_set (?k @ ''_headers'') (Json [(''Content-Type'', ''text/plain'')])
               (cache_set ?k (Text link) ?s1)"
  have step: "for_links E host (link # links) (uris, s)
      = for_links E host links (uris @ [host @ ''/'' @ subDir @ ''/'' @ ?k], ?s3)"
    by (simp add: split_def Let_def generateRandomStr_state)
  have k: "length ?k = 16" "set ?k \<subseteq> set chars"
    by (simp_all add: generateRandomStr_length generateRandomStr_chars)
  have link: "link \<noteq> []" using Cons.prems by simp
  have old: "\<forall>u\<in>set uris. resolvable host ?s3 u"
    using Cons.prems(1) k link
    by (auto intro!: resolvable_set_json resolvable_set_text)
  have new: "resolvable host ?s3 (host @ ''/'' @ subDir @ ''/'' @ ?k)"
    using k link by (rule_tac resolvable_new)
  have "\<forall>u\<in>set (uris @ [host @ ''/'' @ subDir @ ''/'' @ ?k]). resolvable host ?s3 u"
    using old new by simp
  moreover have "\<forall>l\<in>set links. l \<noteq> []" using Cons.prems by simp
  ultimately show ?case
    unfolding step by (rule Cons.IH)
qed

lemma links_of_nonempty: "\<forall>l\<in>set (links_of d). l \<noteq> []"
  by (auto simp: links_of_def trim_def)

section \<open>The branches of the loop\<close>

lemma fetch_eq:
  "fetch E u hs s = (network E (length (fetches s)) u hs, s\<lparr>fetches := fetches s @ [(u, hs)]\<rparr>)"
  by (simp add: fetch_def)

lemma url_branch_failed:
  assumes "fetch_failed (network E (length (fetches s)) p (segment_fetch_headers request))"
  shows "url_branch E request host key p (uris, s)
    = (uris, s\<lparr>fetches := fetches s @ [(p, segment_fetch_headers request)]\<rparr>)"
  using assms
  by (auto simp: url_branch_def fetch_def fetch_failed_def Let_def
           split: fetch_result.splits sum.splits)

lemma url_branch_stored:
  assumes "network E (length (fetches s)) p (segment_fetch_headers request) = Resolved r"
    and "up_ok r" "up_text r = Inr content" "content \<noteq> []" "trim content \<noteq> []"
    and "format (parseData content) \<noteq> ''base64''"
  shows "url_branch E request host key p (uris, s)
    = store_and_push host key content ''text/plain;charset=UTF-8''
        (uris, cache_set (key @ ''_headers'') (Json (fromEntries (up_headers r)))
                 (s\<lparr>fetches := fetches s @ [(p, segment_fetch_headers request)]\<rparr>))"
  using assms by (simp add: url_branch_def fetch_def Let_def)

lemma url_branch_exploded:
  assumes "network E (length (fetches s)) p (segment_fetch_headers request) = Resolved r"
    and "up_ok r" "up_text r = Inr content" "content \<noteq> []" "trim content \<noteq> []"
    and "format (parseData content) = ''base64''"
  shows "url_branch E request host key p (uris, s)
    = for_links E host (links_of (data (parseData content)))
        (uris, cache_set (key @ ''_headers'') (Json (fromEntries (up_headers r)))
                 (s\<lparr>fetches := fetches s @ [(p, segment_fetch_headers request)]\<rparr>))"
  using assms by (simp add: url_branch_def fetch_def Let_def)

lemma fetch_cases:
  obtains (failed) "fetch_failed res"
  | (got) r content where "res = Resolved r" "up_ok r" "up_text r = Inr content"
      "content \<noteq> []" "trim content \<noteq> []"
  by (cases res; cases "up_text (case res of Resolved r \<Rightarrow> r)") (auto simp: fetch_failed_def)

lemma url_branch_resolvable:
  assumes inv: "\<forall>u\<in>set uris. resolvable host s u"
    and k: "length key = 16" "set key \<subseteq> set chars"
  shows "\<forall>u\<in>set (fst (url_branch E request host key p (uris, s))).
           resolvable host (snd (url_branch E request host key p (uris, s))) u"
proof (cases "network E (length (fetches s)) p (segment_fetch_headers request)" rule: fetch_cases)
  case failed
  then show ?thesis using inv by (simp add: url_branch_failed)
next
  case (got r content)
  let ?s2 = "cache_set (key @ ''_headers'') (Json (fromEntries (up_headers r)))
                 (s\<lparr>fetches := fetches s @ [(p, segment_fetch_headers request)]\<rparr>)"
  have inv2: "\<forall>u\<in>set uris. resolvable host ?s2 u"
    using inv by (auto intro!: resolvable_set_json)
  show ?thesis
  proof (cases "format (parseData content) = ''base64''")
    case True
    show ?thesis
      unfolding url_branch_exploded [OF got True]
      using inv2 links_of_nonempty by (rule for_links_resolvable)
  next
    case False
    show ?thesis
      unfolding url_branch_stored [OF got False]
      using inv2 k got(4) by (rule store_and_push_resolvable)
  qed
qed

lemma atob_throws_nonempty: "atob (remove_spaces p) = None \<Longrightarrow> p \<noteq> []"
  by (auto simp: atob_def remove_spaces_def strip_padding_def)

lemma direct_link_nonempty: "direct_link p \<Longrightarrow> p \<noteq> []"
  by (auto simp: direct_link_def list_ex_iff)

lemma decode_branch_resolvable:
  assumes inv: "\<forall>u\<in>set uris. resolvable host s u"
    and k: "length key = 16" "set key \<subseteq> set chars"
  shows "\<forall>u\<in>set (fst (decode_branch E host key p (uris, s))).
           resolvable host (snd (decode_branch E host key p (uris, s))) u"
proof (cases "atob (remove_spaces p)")
  case None
  then have eq: "decode_branch E host key p (uris, s) = store_and_push host key p ''text/plain'' (uris, s)"
    by (simp add: decode_branch_def)
  show ?thesis unfolding eq
    using inv k atob_throws_nonempty [OF None] by (rule store_and_push_resolvable)
next
  case (Some decoded)
  show ?thesis
  proof (cases "format (parseData decoded) = ''base64''")
    case True
    with Some have eq: "decode_branch E host key p (uris, s)
        = for_links E host (links_of (data (parseData decoded))) (uris, s)"
      by (simp add: decode_branch_def Let_def)
    show ?thesis unfolding eq using inv links_of_nonempty by (rule for_links_resolvable)
  next
    case False
    with Some have "decode_branch E host key p (uris, s) = (uris, s)"
      by (simp add: decode_branch_def Let_def)
    then show ?thesis using inv by simp
  qed
qed

lemma segment_resolvable:
  assumes inv: "\<forall>u\<in>set uris. resolvable host s u"
    and k: "length key = 16" "set key \<subseteq> set chars"
  shows "\<forall>u\<in>set (fst (segment E request host key p (uris, s))).
           resolvable host (snd (segment E request host key p (uris, s))) u"
  unfolding segment_def
  using url_branch_resolvable [OF inv k] decode_branch_resolvable [OF inv k]
        store_and_push_resolvable [OF inv k]  direct_link_nonempty
  by auto

lemma for_urlParts_step:
  "for_urlParts E request host (p # ps) (uris, s)
    = for_urlParts E request host ps
        (segment E request host (fst (generateRandomStr E 16 s)) p
           (uris, s\<lparr>randoms := randoms s + 16\<rparr>))"
  by (simp add: split_def generateRandomStr_state)

lemma for_urlParts_resolvable:
  "\<forall>u\<in>set uris. resolvable host s u \<Longrightarrow>
   \<forall>u\<in>set (fst (for_urlParts E request host ps (uris, s))).
      resolvable host (snd (for_urlParts E request host ps (uris, s))) u"
proof (induction ps arbitrary: uris s)
  case Nil
  then show ?case by simp
next
  case (Cons p ps)
  let ?k = "fst (generateRandomStr E 16 s)"
  let ?acc = "segment E request host ?k p (uris, s\<lparr>randoms := randoms s + 16\<rparr>)"
  have "\<forall>u\<in>set uris. resolvable host (s\<lparr>randoms := randoms s + 16\<rparr>) u"
    using Cons.prems by simp
  then have "\<forall>u\<in>set (fst ?acc). resolvable host (snd ?acc) u"
    by (rule segment_resolvable) (simp_all add: generateRandomStr_length generateRandomStr_chars)
  then have "\<forall>u\<in>set (fst (for_urlParts E request host ps (fst ?acc, snd ?acc))).
      resolvable host (snd (for_urlParts E request host ps (fst ?acc, snd ?acc))) u"
    by (rule Cons.IH)
  then show ?case unfolding for_urlParts_step by simp
qed

section \<open>The loop keeps its URIs resolvable\<close>

lemma handler_subscription:
  "url_pathname (req_url rq) = ''/subscription/'' @ k \<Longrightarrow>
   handler E rq s = (serve_stored (''/subscription/'' @ k) s, s)"
  by (simp add: handler_def Let_def startsWith_def)

lemma resolvable_served:
  assumes "resolvable host s u"
  shows "\<exists>k c h. u = host @ ''/subscription/'' @ k \<and> length k = 16 \<and> c \<noteq> []
      \<and> memoryCache s k = Some (Text c) \<and> memoryCache s (k @ ''_headers'') = Some (Json h)
      \<and> handler E (get_subscription k) s
          = (Reply \<lparr>resp_status = 200, resp_body = Text c,
                    resp_headers = AList.update ''Access-Control-Allow-Origin'' ''*'' h\<rparr>, s)"
proof -
  from assms obtain k c h where r: "u = host @ ''/'' @ subDir @ ''/'' @ k" "length k = 16"
      "set k \<subseteq> set chars" "memoryCache s k = Some (Text c)" "c \<noteq> []"
      "memoryCache s (k @ ''_headers'') = Some (Json h)"
    unfolding resolvable_def by blast
  have "k \<noteq> []" using r(2) by auto
  then have "serve_stored (''/subscription/'' @ k) s
          = Reply \<lparr>resp_status = 200, resp_body = Text c,
                   resp_headers = AList.update ''Access-Control-Allow-Origin'' ''*'' h\<rparr>"
    using r key_no_slash key_no_dots by (intro serve_stored_hit) auto
  then have "handler E (get_subscription k) s
          = (Reply \<lparr>resp_status = 200, resp_body = Text c,
                    resp_headers = AList.update ''Access-Control-Allow-Origin'' ''*'' h\<rparr>, s)"
    using handler_subscription [OF get_subscription_key [OF r(3)], of E s] by simp
  with r show ?thesis by (auto simp: subDir_def)
qed

text \<open>The keys of the example world.\<close>

lemma chars_draws: "map (\<lambda>i. chars ! (i mod length chars)) [0..<16] = ''abcdefghijklmnop''"
  by code_simp

lemma offline_key: "fst (generateRandomStr offline_env 16 empty_state) = ''abcdefghijklmnop''"
  using chars_draws by (simp add: generateRandomStr_draws offline_env_def empty_state_def del: upt_Suc)

lemma direct_examples: "direct_link ''vmess://abc''" "direct_link ''vless://xyz''"
  "\<not> startsWith ''vmess://abc'' ''https://''" "\<not> startsWith ''vmess://abc'' ''http://''"
  "\<not> startsWith ''vless://xyz'' ''https://''" "\<not> startsWith ''vless://xyz'' ''http://''"
  by code_simp+

text \<open>
  C10. The invariant of the loop over the segments: every URI of the list is
  \<open>host/subscription/k\<close> for a key \<open>k\<close> of 16 characters under which the store holds a
  non-empty text, with headers stored under \<open>k_headers\<close>. Every push comes after its two
  writes, and no later write takes the text or the headers of a key away, so the loop keeps
  the invariant from any list and store that have it, the empty list of the code among
  them. Hence each URI of the final list is served at once, status 200, by the subscription
  route of the same process.
\<close>

theorem fanout_invariant:
  assumes "\<forall>u\<in>set uris. resolvable host s u"
    and "for_urlParts E request host urlParts (uris, s) = (replacedURIs, s')"
    and "u \<in> set replacedURIs"
  shows "\<exists>k c h. u = host @ ''/subscription/'' @ k \<and> length k = 16 \<and> c \<noteq> []
      \<and> memoryCache s' k = Some (Text c) \<and> memoryCache s' (k @ ''_headers'') = Some (Json h)
      \<and> handler E' (get_subscription k) s'
          = (Reply \<lparr>resp_status = 200, resp_body = Text c,
                    resp_headers = AList.update ''Access-Control-Allow-Origin'' ''*'' h\<rparr>, s')"
proof -
  have "resolvable host s' u"
    using for_urlParts_resolvable [OF assms(1), of E request urlParts] assms(2,3) by simp
  from resolvable_served [OF this, of E'] show ?thesis
    by blast
qed

theorem fanout_invariant_witness:
  "\<exists>k c h. ''https://example.com/subscription/abcdefghijklmnop''
        = ''https://example.com'' @ ''/subscription/'' @ k \<and> length k = 16 \<and> c \<noteq> []
      \<and> memoryCache (snd (for_urlParts offline_env (example_request [] []) ''https://example.com''
            [''vmess://abc''] ([], empty_state))) k = Some (Text c)
      \<and> memoryCache (snd (for_urlParts offline_env (example_request [] []) ''https://example.com''
            [''vmess://abc''] ([], empty_state))) (k @ ''_headers'') = Some (Json h)
      \<and> handler offline_env (get_subscription k)
           (snd (for_urlParts offline_env (example_request [] []) ''https://example.com''
              [''vmess://abc''] ([], empty_state)))
          = (Reply \<lparr>resp_status = 200, resp_body = Text c,
                    resp_headers = AList.update ''Access-Control-Allow-Origin'' ''*'' h\<rparr>,
             snd (for_urlParts offline_env (example_request [] []) ''https://example.com''
              [''vmess://abc''] ([], empty_state)))"
proof -
  let ?r = "for_urlParts offline_env (example_request [] []) ''https://example.com''
              [''vmess://abc''] ([], empty_state)"
  have uris: "fst ?r = [''https://example.com/subscription/abcdefghijklmnop'']"
    by (simp add: split_def segment_def direct_examples store_and_push_def offline_key
          subDir_def)
  have inv: "\<forall>u\<in>set []. resolvable ''https://example.com'' empty_state u" by simp
  have eq: "?r = (fst ?r, snd ?r)" by (rule prod.collapse [symmetric])
  have mem: "''https://example.com/subscription/abcdefghijklmnop'' \<in> set (fst ?r)"
    unfolding uris by simp
  show ?thesis by (rule fanout_invariant [OF inv eq mem])
qed

section \<open>Round trip through the store\<close>

lemma urlParts_example: "urlParts_of ''vmess://abc|vless://xyz'' = [''vmess://abc'', ''vless://xyz'']"
  by code_simp

lemma key_nonempty: "length k = 16 \<Longrightarrow> k \<noteq> []"
  by auto

lemma direct_step:
  assumes "\<not> startsWith p ''https://''" "\<not> startsWith p ''http://''" "direct_link p"
  shows "for_urlParts E request host (p # ps) (uris, s)
    = for_urlParts E request host ps
        (uris @ [host @ ''/subscription/'' @ fst (generateRandomStr E 16 s)],
         cache_set (fst (generateRandomStr E 16 s) @ ''_headers'')
           (Json [(''Content-Type'', ''text/plain'')])
           (cache_set (fst (generateRandomStr E 16 s)) (Text p)
              (s\<lparr>randoms := randoms s + 16\<rparr>)))"
  using assms by (simp add: for_urlParts_step segment_def store_and_push_def subDir_def
    del: for_urlParts.simps)

lemma stored_then_served:
  assumes "key \<noteq> []" "set key \<subseteq> set chars" "content \<noteq> []"
  shows "handler E (get_subscription key)
           (cache_set (key @ ''_headers'') (Json h) (cache_set key (Text content) s))
     = (Reply \<lparr>resp_status = 200, resp_body = Text content,
               resp_headers = AList.update ''Access-Control-Allow-Origin'' ''*'' h\<rparr>,
        cache_set (key @ ''_headers'') (Json h) (cache_set key (Text content) s))"
proof -
  have "serve_stored (''/subscription/'' @ key)
          (cache_set (key @ ''_headers'') (Json h) (cache_set key (Text content) s))
     = Reply \<lparr>resp_status = 200, resp_body = Text content,
               resp_headers = AList.update ''Access-Control-Allow-Origin'' ''*'' h\<rparr>"
    using assms key_no_slash [OF assms(2)] key_no_dots [OF assms(2)]
    by (intro serve_stored_hit) (simp_all add: cache_set_def)
  then show ?thesis
    using handler_subscription [OF get_subscription_key [OF assms(2)]] by simp
qed

lemma chars_draws2: "map (\<lambda>i. chars ! ((16 + i) mod length chars)) [0..<16] = ''qrstuvwxyz012345''"
  by code_simp

lemma offline_key2:
  "fst (generateRandomStr offline_env 16 (empty_state\<lparr>randoms := randoms empty_state + 16\<rparr>))
     = ''qrstuvwxyz012345''"
  using chars_draws2
  by (simp add: generateRandomStr_draws offline_env_def empty_state_def del: upt_Suc)

lemma example_host: "getHost (example_request q ps) = ''https://example.com''"
  by (simp add: getHost_def example_request_def)

lemma body_example:
  "btoa (''https://example.com/subscription/abcdefghijklmnop'' @ [CHR 0x0D, CHR 0x0A]
         @ ''https://example.com/subscription/qrstuvwxyz012345'')
     = ''aHR0cHM6Ly9leGFtcGxlLmNvbS9zdWJzY3JpcHRpb24vYWJjZGVmZ2hpamtsbW5vcA0KaHR0cHM6Ly9leGFtcGxlLmNvbS9zdWJzY3JpcHRpb24vcXJzdHV2d3h5ejAxMjM0NQ==''"
  by code_simp

lemma stuck_draws: "map (\<lambda>i. chars ! (0 mod length chars)) [0..<16] = ''aaaaaaaaaaaaaaaa''"
  by code_simp

lemma stuck_key: "fst (generateRandomStr stuck_env 16 s) = ''aaaaaaaaaaaaaaaa''"
  using stuck_draws by (simp add: generateRandomStr_draws stuck_env_def del: upt_Suc)

lemma two_links_loop:
  "for_urlParts E request host [''vmess://abc'', ''vless://xyz''] ([], s)
     = ([host @ ''/subscription/'' @ fst (generateRandomStr E 16 s),
         host @ ''/subscription/''
           @ fst (generateRandomStr E 16 (s\<lparr>randoms := randoms s + 16\<rparr>))],
        cache_set (fst (generateRandomStr E 16 (s\<lparr>randoms := randoms s + 16\<rparr>)) @ ''_headers'')
          (Json [(''Content-Type'', ''text/plain'')])
          (cache_set (fst (generateRandomStr E 16 (s\<lparr>randoms := randoms s + 16\<rparr>)))
             (Text ''vless://xyz'')
             ((cache_set (fst (generateRandomStr E 16 s) @ ''_headers'')
                 (Json [(''Content-Type'', ''text/plain'')])
                 (cache_set (fst (generateRandomStr E 16 s)) (Text ''vmess://abc'')
                    (s\<lparr>randoms := randoms s + 16\<rparr>)))
              \<lparr>randoms := randoms s + 16 + 16\<rparr>)))"
proof -
  let ?s1 = "cache_set (fst (generateRandomStr E 16 s) @ ''_headers'')
                 (Json [(''Content-Type'', ''text/plain'')])
                 (cache_set (fst (generateRandomStr E 16 s)) (Text ''vmess://abc'')
                    (s\<lparr>randoms := randoms s + 16\<rparr>))"
  have k2: "fst (generateRandomStr E 16 ?s1)
      = fst (generateRandomStr E 16 (s\<lparr>randoms := randoms s + 16\<rparr>))"
    by (simp add: generateRandomStr_draws cache_set_def del: upt_Suc)
  have r: "randoms ?s1 = randoms s + 16"
    by (simp add: cache_set_def)
  show ?thesis
    by (simp only: direct_step direct_examples not_False_eq_True for_urlParts.simps(1) append_Nil
          append_Cons k2 r)
qed

text \<open>
  C4, as the code has it. Round trip: a non-empty content written with its \<open>Content-Type\<close>
  under a key of the generator (the content under the key, the headers under
  \<open>key_headers\<close>, as the loop writes them) is what \<open>GET /subscription/key\<close> returns, text and
  \<open>Content-Type\<close>, with the CORS header added. For the input \<open>vmess://abc|vless://xyz\<close> the
  resolver makes no \<open>fetch\<close>, its list is the two URIs of the keys \<open>k1\<close> and \<open>k2\<close> it draws,
  and its answer is the base64 of the two joined by CR LF. The URI of \<open>k2\<close> resolves to
  \<open>vless://xyz\<close>; the URI of \<open>k1\<close> resolves to \<open>vmess://abc\<close> when the two keys differ.
\<close>

theorem store_get_roundtrip:
  fixes E :: env and s :: state and request :: request
  defines "k1 \<equiv> fst (generateRandomStr E 16 s)"
    and "k2 \<equiv> fst (generateRandomStr E 16 (s\<lparr>randoms := randoms s + 16\<rparr>))"
    and "s' \<equiv> snd (resolve E request ''vmess://abc|vless://xyz'' s)"
  shows "(key \<noteq> [] \<and> set key \<subseteq> set chars \<and> content \<noteq> []
      \<longrightarrow> handler E' (get_subscription key)
            (cache_set (key @ ''_headers'') (Json [(''Content-Type'', ctype)])
               (cache_set key (Text content) t))
          = (Reply \<lparr>resp_status = 200, resp_body = Text content,
                    resp_headers = [(''Content-Type'', ctype),
                                    (''Access-Control-Allow-Origin'', ''*'')]\<rparr>,
             cache_set (key @ ''_headers'') (Json [(''Content-Type'', ctype)])
               (cache_set key (Text content) t)))
    \<and> fst (for_urlParts E request (getHost request) (urlParts_of ''vmess://abc|vless://xyz'')
             ([], s))
        = [getHost request @ ''/subscription/'' @ k1, getHost request @ ''/subscription/'' @ k2]
    \<and> fst (resolve E request ''vmess://abc|vless://xyz'' s)
        = \<lparr>resp_status = 200,
           resp_body = Text (btoa (getHost request @ ''/subscription/'' @ k1
                                   @ [CHR 0x0D, CHR 0x0A]
                                   @ getHost request @ ''/subscription/'' @ k2)),
           resp_headers = [(''Content-Type'', ''text/plain''),
                           (''Access-Control-Allow-Origin'', ''*'')]\<rparr>
    \<and> fetches s' = fetches s
    \<and> (k1 \<noteq> k2 \<longrightarrow>
        handler E' (get_subscription k1) s'
          = (Reply \<lparr>resp_status = 200, resp_body = Text ''vmess://abc'',
                    resp_headers = [(''Content-Type'', ''text/plain''),
                                    (''Access-Control-Allow-Origin'', ''*'')]\<rparr>, s'))
    \<and> handler E' (get_subscription k2) s'
          = (Reply \<lparr>resp_status = 200, resp_body = Text ''vless://xyz'',
                    resp_headers = [(''Content-Type'', ''text/plain''),
                                    (''Access-Control-Allow-Origin'', ''*'')]\<rparr>, s')"
proof -
  let ?h = "[(''Content-Type'', ''text/plain'')]"
  let ?s1 = "cache_set (k1 @ ''_headers'') (Json ?h)
           (cache_set k1 (Text ''vmess://abc'') (s\<lparr>randoms := randoms s + 16\<rparr>))"
  let ?s2 = "cache_set (k2 @ ''_headers'') (Json ?h)
           (cache_set k2 (Text ''vless://xyz'') (?s1\<lparr>randoms := randoms s + 16 + 16\<rparr>))"
  have loop: "for_urlParts E request (getHost request) [''vmess://abc'', ''vless://xyz''] ([], s)
      = ([getHost request @ ''/subscription/'' @ k1, getHost request @ ''/subscription/'' @ k2], ?s2)"
    unfolding k1_def k2_def by (rule two_links_loop)
  have res: "resolve E request ''vmess://abc|vless://xyz'' s
     = (\<lparr>resp_status = 200,
           resp_body = Text (btoa (getHost request @ ''/subscription/'' @ k1
                                   @ [CHR 0x0D, CHR 0x0A]
                                   @ getHost request @ ''/subscription/'' @ k2)),
           resp_headers = [(''Content-Type'', ''text/plain''),
                           (''Access-Control-Allow-Origin'', ''*'')]\<rparr>, ?s2)"
    unfolding resolve_def urlParts_example Let_def loop by simp
  have s': "s' = ?s2" by (simp add: s'_def res)
  have kk: "length k1 = 16" "set k1 \<subseteq> set chars" "length k2 = 16" "set k2 \<subseteq> set chars"
    by (simp_all add: k1_def k2_def generateRandomStr_length generateRandomStr_chars)
  then have ne: "k1 \<noteq> []" "k2 \<noteq> []"
    by auto
  have g2: "handler E' (get_subscription k2) ?s2
          = (Reply \<lparr>resp_status = 200, resp_body = Text ''vless://xyz'',
                    resp_headers = [(''Content-Type'', ''text/plain''),
                                    (''Access-Control-Allow-Origin'', ''*'')]\<rparr>, ?s2)"
    using stored_then_served [OF ne(2) kk(4), of "''vless://xyz''" E' ?h] by simp
  have g1: "handler E' (get_subscription k1) ?s2
          = (Reply \<lparr>resp_status = 200, resp_body = Text ''vmess://abc'',
                    resp_headers = [(''Content-Type'', ''text/plain''),
                                    (''Access-Control-Allow-Origin'', ''*'')]\<rparr>, ?s2)"
    if "k1 \<noteq> k2"
  proof -
    have "k1 \<noteq> k2 @ ''_headers''" "k1 @ ''_headers'' \<noteq> k2"
      using kk key_not_headers by blast+
    then have "serve_stored (''/subscription/'' @ k1) ?s2
       = Reply \<lparr>resp_status = 200, resp_body = Text ''vmess://abc'',
                    resp_headers = AList.update ''Access-Control-Allow-Origin'' ''*'' ?h\<rparr>"
      using ne kk key_no_slash key_no_dots that
      by (intro serve_stored_hit) (simp_all add: cache_set_def)
    then show ?thesis
      using handler_subscription [OF get_subscription_key [OF kk(2)]] by simp
  qed
  have f: "fetches ?s2 = fetches s" by (simp add: cache_set_def)
  have l: "fst (for_urlParts E request (getHost request) (urlParts_of ''vmess://abc|vless://xyz'')
             ([], s))
        = [getHost request @ ''/subscription/'' @ k1, getHost request @ ''/subscription/'' @ k2]"
    unfolding urlParts_example loop by simp
  have put: "handler E' (get_subscription key)
            (cache_set (key @ ''_headers'') (Json [(''Content-Type'', ctype)])
               (cache_set key (Text content) t))
          = (Reply \<lparr>resp_status = 200, resp_body = Text content,
                    resp_headers = [(''Content-Type'', ctype),
                                    (''Access-Control-Allow-Origin'', ''*'')]\<rparr>,
             cache_set (key @ ''_headers'') (Json [(''Content-Type'', ctype)])
               (cache_set key (Text content) t))"
    if "key \<noteq> []" "set key \<subseteq> set chars" "content \<noteq> []"
    using stored_then_served [OF that, of E' "[(''Content-Type'', ctype)]" t] by simp
  show ?thesis
    unfolding s' using put res g1 g2 f l by (intro conjI impI) (simp_all del: for_urlParts.simps)
qed

theorem store_get_roundtrip_witness:
  "handler offline_env (get_subscription ''abcdefghijklmnop'')
      (cache_set (''abcdefghijklmnop'' @ ''_headers'') (Json [(''Content-Type'', ''text/plain'')])
         (cache_set ''abcdefghijklmnop'' (Text ''vmess://abc'') empty_state))
    = (Reply \<lparr>resp_status = 200, resp_body = Text ''vmess://abc'',
              resp_headers = [(''Content-Type'', ''text/plain''),
                              (''Access-Control-Allow-Origin'', ''*'')]\<rparr>,
       cache_set (''abcdefghijklmnop'' @ ''_headers'') (Json [(''Content-Type'', ''text/plain'')])
         (cache_set ''abcdefghijklmnop'' (Text ''vmess://abc'') empty_state))
   \<and> fst (for_urlParts offline_env (example_request [] []) ''https://example.com''
            (urlParts_of ''vmess://abc|vless://xyz'') ([], empty_state))
      = [''https://example.com/subscription/abcdefghijklmnop'',
         ''https://example.com/subscription/qrstuvwxyz012345'']
   \<and> fst (resolve offline_env (example_request [] []) ''vmess://abc|vless://xyz'' empty_state)
      = \<lparr>resp_status = 200,
         resp_body = Text ''aHR0cHM6Ly9leGFtcGxlLmNvbS9zdWJzY3JpcHRpb24vYWJjZGVmZ2hpamtsbW5vcA0KaHR0cHM6Ly9leGFtcGxlLmNvbS9zdWJzY3JpcHRpb24vcXJzdHV2d3h5ejAxMjM0NQ=='',
         resp_headers = [(''Content-Type'', ''text/plain''),
                         (''Access-Control-Allow-Origin'', ''*'')]\<rparr>
   \<and> fetches (snd (resolve offline_env (example_request [] []) ''vmess://abc|vless://xyz''
          empty_state)) = []
   \<and> handler offline_env (get_subscription ''abcdefghijklmnop'')
        (snd (resolve offline_env (example_request [] []) ''vmess://abc|vless://xyz'' empty_state))
      = (Reply \<lparr>resp_status = 200, resp_body = Text ''vmess://abc'',
                resp_headers = [(''Content-Type'', ''text/plain''),
                                (''Access-Control-Allow-Origin'', ''*'')]\<rparr>,
         snd (resolve offline_env (example_request [] []) ''vmess://abc|vless://xyz'' empty_state))
   \<and> handler offline_env (get_subscription ''qrstuvwxyz012345'')
        (snd (resolve offline_env (example_request [] []) ''vmess://abc|vless://xyz'' empty_state))
      = (Reply \<lparr>resp_status = 200, resp_body = Text ''vless://xyz'',
                resp_headers = [(''Content-Type'', ''text/plain''),
                                (''Access-Control-Allow-Origin'', ''*'')]\<rparr>,
         snd (resolve offline_env (example_request [] []) ''vmess://abc|vless://xyz'' empty_state))"
proof -
  have k: "''abcdefghijklmnop'' \<noteq> []" "set ''abcdefghijklmnop'' \<subseteq> set chars"
      "''vmess://abc'' \<noteq> []" "''abcdefghijklmnop'' \<noteq> ''qrstuvwxyz012345''"
    by code_simp+
  have f: "fetches empty_state = []" by (simp add: empty_state_def)
  have b: "btoa (''https://example.com'' @ ''/subscription/'' @ ''abcdefghijklmnop''
                 @ [CHR 0x0D, CHR 0x0A]
                 @ ''https://example.com'' @ ''/subscription/'' @ ''qrstuvwxyz012345'')
     = ''aHR0cHM6Ly9leGFtcGxlLmNvbS9zdWJzY3JpcHRpb24vYWJjZGVmZ2hpamtsbW5vcA0KaHR0cHM6Ly9leGFtcGxlLmNvbS9zdWJzY3JpcHRpb24vcXJzdHV2d3h5ejAxMjM0NQ==''"
    using body_example by simp
  show ?thesis
    using store_get_roundtrip [where E = offline_env and s = empty_state
        and request = "example_request [] []" and E' = offline_env
        and key = "''abcdefghijklmnop''" and content = "''vmess://abc''"
        and ctype = "''text/plain''" and t = empty_state] k f
    unfolding offline_key offline_key2 example_host b
    by (simp del: for_urlParts.simps)
qed

text \<open>The claim has each URI resolve to its own link. In a world where the generator
  repeats itself the two keys are one, the second write replaces the first, and the first
  URI of the list resolves to \<open>vless://xyz\<close>.\<close>

theorem store_get_roundtrip_counterexample:
  "fst (for_urlParts stuck_env (example_request [] []) ''https://example.com''
          (urlParts_of ''vmess://abc|vless://xyz'') ([], empty_state))
     = [''https://example.com/subscription/aaaaaaaaaaaaaaaa'',
        ''https://example.com/subscription/aaaaaaaaaaaaaaaa'']
   \<and> handler stuck_env (get_subscription ''aaaaaaaaaaaaaaaa'')
        (snd (for_urlParts stuck_env (example_request [] []) ''https://example.com''
               (urlParts_of ''vmess://abc|vless://xyz'') ([], empty_state)))
     = (Reply \<lparr>resp_status = 200, resp_body = Text ''vless://xyz'',
               resp_headers = [(''Content-Type'', ''text/plain''),
                               (''Access-Control-Allow-Origin'', ''*'')]\<rparr>,
        snd (for_urlParts stuck_env (example_request [] []) ''https://example.com''
               (urlParts_of ''vmess://abc|vless://xyz'') ([], empty_state)))"
proof -
  have k: "''aaaaaaaaaaaaaaaa'' \<noteq> []" "set ''aaaaaaaaaaaaaaaa'' \<subseteq> set chars"
      "''vless://xyz'' \<noteq> []"
    by code_simp+
  show ?thesis
    unfolding urlParts_example two_links_loop stuck_key fst_conv snd_conv
    using stored_then_served [OF k, of stuck_env "[(''Content-Type'', ''text/plain'')]"]
    by simp
qed

section \<open>A failed fetch skips its segment\<close>

lemma failed_step:
  assumes "startsWith p ''https://'' \<or> startsWith p ''http://''"
    and "fetch_failed (network E (length (fetches s)) p (segment_fetch_headers request))"
  shows "for_urlParts E request host (p # ps) (uris, s)
    = for_urlParts E request host ps
        (uris, s\<lparr>randoms := randoms s + 16,
                 fetches := fetches s @ [(p, segment_fetch_headers request)]\<rparr>)"
  using assms
  by (simp add: for_urlParts_step segment_def url_branch_failed del: for_urlParts.simps)

lemma all_failed_loop:
  assumes "\<forall>n u hs. fetch_failed (network E n u hs)"
  shows "\<forall>p\<in>set ps. startsWith p ''https://'' \<or> startsWith p ''http://'' \<Longrightarrow>
    fst (for_urlParts E request host ps (uris, s)) = uris"
proof (induction ps arbitrary: s)
  case Nil
  show ?case by simp
next
  case (Cons p ps)
  have "for_urlParts E request host (p # ps) (uris, s)
    = for_urlParts E request host ps
        (uris, s\<lparr>randoms := randoms s + 16,
                 fetches := fetches s @ [(p, segment_fetch_headers request)]\<rparr>)"
    using Cons.prems assms by (intro failed_step) auto
  then show ?case using Cons by simp
qed

lemma urlParts_of_nonempty: "urlParts_of targetUrl \<noteq> [] \<Longrightarrow> targetUrl \<noteq> []"
  by (auto simp: urlParts_of_def trim_def)

lemma processSubscription_resolve:
  "searchParams_get u ''url'' = Some targetUrl \<Longrightarrow> urlParts_of targetUrl \<noteq> [] \<Longrightarrow>
   processSubscription E request u backend s = resolve E request targetUrl s"
  using urlParts_of_nonempty by (simp add: processSubscription_def)

lemma resolve_status:
  "urlParts_of targetUrl \<noteq> [] \<Longrightarrow>
   fst (resolve E request targetUrl s)
     = (if fst (for_urlParts E request (getHost request) (urlParts_of targetUrl) ([], s)) = []
        then all_invalid
        else \<lparr>resp_status = 200,
              resp_body = Text (btoa (join [CHR 0x0D, CHR 0x0A]
                 (fst (for_urlParts E request (getHost request) (urlParts_of targetUrl) ([], s))))),
              resp_headers = [(''Content-Type'', ''text/plain''),
                              (''Access-Control-Allow-Origin'', ''*'')]\<rparr>)"
  by (simp add: resolve_def Let_def split_def)

lemma offline_failed: "fetch_failed (network offline_env n u hs)"
  by (simp add: fetch_failed_def offline_env_def)

lemma mixed_example:
  "urlParts_of ''https://down.example/a|vmess://abc'' = [''https://down.example/a'', ''vmess://abc'']"
  "startsWith ''https://down.example/a'' ''https://''"
  "urlParts_of ''https://down.example/a|http://down.example/b''
     = [''https://down.example/a'', ''http://down.example/b'']"
  "startsWith ''http://down.example/b'' ''http://''"
  by code_simp+

lemma example_url_param:
  "searchParams_get (req_url (example_request q [(''url'', t)])) ''url'' = Some t"
  by (simp add: searchParams_get_def example_request_def)

text \<open>
  C5. A segment that is a URL and whose fetch fails (the \<open>fetch\<close> is rejected, the status
  is not 2xx, or the body is empty or blank) is skipped: the loop goes on with the next
  segment from the same list and the same store (only the draws of the key and the call of
  \<open>fetch\<close> are counted). After the loop, the request fails, with the response
  \<open>all_invalid\<close> of status 400, exactly when the list is empty; otherwise the status is 200.
  So when every segment is a URL and no fetch succeeds the answer is \<open>all_invalid\<close>.
\<close>

theorem failed_segment_skipped:
  "((startsWith p ''https://'' \<or> startsWith p ''http://'')
      \<and> fetch_failed (network E (length (fetches s)) p (segment_fetch_headers request))
     \<longrightarrow> for_urlParts E request host (p # ps) (uris, s)
          = for_urlParts E request host ps
              (uris, s\<lparr>randoms := randoms s + 16,
                       fetches := fetches s @ [(p, segment_fetch_headers request)]\<rparr>))
   \<and> (searchParams_get u ''url'' = Some targetUrl \<and> urlParts_of targetUrl \<noteq> [] \<longrightarrow>
        (fst (for_urlParts E request (getHost request) (urlParts_of targetUrl) ([], s)) = []
           \<longrightarrow> fst (processSubscription E request u backend s) = all_invalid)
        \<and> (fst (for_urlParts E request (getHost request) (urlParts_of targetUrl) ([], s)) \<noteq> []
           \<longrightarrow> resp_status (fst (processSubscription E request u backend s)) = 200))
   \<and> resp_status all_invalid = 400
   \<and> (searchParams_get u ''url'' = Some targetUrl \<and> urlParts_of targetUrl \<noteq> []
        \<and> (\<forall>p\<in>set (urlParts_of targetUrl). startsWith p ''https://'' \<or> startsWith p ''http://'')
        \<and> (\<forall>n u hs. fetch_failed (network E n u hs))
      \<longrightarrow> fst (processSubscription E request u backend s) = all_invalid)"
proof (intro conjI impI)
  assume "(startsWith p ''https://'' \<or> startsWith p ''http://'')
      \<and> fetch_failed (network E (length (fetches s)) p (segment_fetch_headers request))"
  then show "for_urlParts E request host (p # ps) (uris, s)
          = for_urlParts E request host ps
              (uris, s\<lparr>randoms := randoms s + 16,
                       fetches := fetches s @ [(p, segment_fetch_headers request)]\<rparr>)"
    using failed_step by blast
next
  assume "searchParams_get u ''url'' = Some targetUrl \<and> urlParts_of targetUrl \<noteq> []"
    "fst (for_urlParts E request (getHost request) (urlParts_of targetUrl) ([], s)) = []"
  then show "fst (processSubscription E request u backend s) = all_invalid"
    by (simp add: processSubscription_resolve resolve_status)
next
  assume "searchParams_get u ''url'' = Some targetUrl \<and> urlParts_of targetUrl \<noteq> []"
    "fst (for_urlParts E request (getHost request) (urlParts_of targetUrl) ([], s)) \<noteq> []"
  then show "resp_status (fst (processSubscription E request u backend s)) = 200"
    by (simp add: processSubscription_resolve resolve_status)
next
  show "resp_status all_invalid = 400" by (simp add: all_invalid_def)
next
  assume a: "searchParams_get u ''url'' = Some targetUrl \<and> urlParts_of targetUrl \<noteq> []
        \<and> (\<forall>p\<in>set (urlParts_of targetUrl). startsWith p ''https://'' \<or> startsWith p ''http://'')
        \<and> (\<forall>n u hs. fetch_failed (network E n u hs))"
  then have "fst (for_urlParts E request (getHost request) (urlParts_of targetUrl) ([], s)) = []"
    using all_failed_loop by blast
  with a show "fst (processSubscription E request u backend s) = all_invalid"
    by (simp add: processSubscription_resolve resolve_status)
qed

theorem failed_segment_skipped_witness:
  "for_urlParts offline_env (example_request [] []) ''https://example.com''
       [''https://down.example/a'', ''vmess://abc''] ([], empty_state)
     = for_urlParts offline_env (example_request [] []) ''https://example.com'' [''vmess://abc'']
         ([], empty_state\<lparr>randoms := randoms empty_state + 16,
                fetches := fetches empty_state
                  @ [(''https://down.example/a'', segment_fetch_headers (example_request [] []))]\<rparr>)
   \<and> resp_status (fst (processSubscription offline_env
          (example_request [] [(''url'', ''https://down.example/a|vmess://abc'')])
          (req_url (example_request [] [(''url'', ''https://down.example/a|vmess://abc'')]))
          (BACKEND offline_env) empty_state)) = 200
   \<and> fst (processSubscription offline_env
          (example_request [] [(''url'', ''https://down.example/a|http://down.example/b'')])
          (req_url (example_request [] [(''url'', ''https://down.example/a|http://down.example/b'')]))
          (BACKEND offline_env) empty_state) = all_invalid
   \<and> resp_status all_invalid = 400"
proof -
  let ?rq = "example_request [] [(''url'', ''https://down.example/a|vmess://abc'')]"
  have "fst (for_urlParts offline_env ?rq (getHost ?rq)
          [''https://down.example/a'', ''vmess://abc''] ([], empty_state)) \<noteq> []"
    by (simp add: failed_step direct_step mixed_example offline_failed direct_examples
          del: for_urlParts.simps(2))
  then show ?thesis
    using failed_segment_skipped [where p = "''https://down.example/a''" and E = offline_env
            and s = empty_state and request = "example_request [] []"
            and host = "''https://example.com''" and ps = "[''vmess://abc'']" and uris = "[]"
            and u = "req_url ?rq" and targetUrl = "''https://down.example/a|vmess://abc''"
            and backend = "BACKEND offline_env"]
          failed_segment_skipped [where p = "''https://down.example/a''" and E = offline_env
            and s = empty_state and request = ?rq
            and host = "''https://example.com''" and ps = "[''vmess://abc'']" and uris = "[]"
            and u = "req_url ?rq" and targetUrl = "''https://down.example/a|vmess://abc''"
            and backend = "BACKEND offline_env"]
          failed_segment_skipped [where p = "''https://down.example/a''" and E = offline_env
            and s = empty_state
            and request = "example_request [] [(''url'', ''https://down.example/a|http://down.example/b'')]"
            and host = "''https://example.com''" and ps = "[]" and uris = "[]"
            and u = "req_url (example_request [] [(''url'', ''https://down.example/a|http://down.example/b'')])"
            and targetUrl = "''https://down.example/a|http://down.example/b''"
            and backend = "BACKEND offline_env"]
          mixed_example offline_failed example_url_param
    by (simp del: for_urlParts.simps(2))
qed

section \<open>The subscription route\<close>

lemma request_to_path: "url_pathname (req_url (request_to raw)) = pathname_of raw"
  by (simp add: request_to_def)

text \<open>A segment \<open>..\<close> after \<open>/subscription/\<close> takes that segment away: the path is the one
  of what follows.\<close>

lemma pathname_of_parent:
  "pathname_of (''/subscription/../'' @ rest) = pathname_of (CHR ''/'' # rest)"
proof -
  let ?rest = "map (\<lambda>c. if c = CHR 0x5C then CHR ''/'' else c) rest"
  obtain x xs where sp: "split_char CHR ''/'' ?rest = x # xs"
    using split_char_nonempty [of "CHR ''/''" ?rest] by (cases "split_char CHR ''/'' ?rest") auto
  have "split_char CHR ''/'' (''subscription'' @ CHR ''/'' # ''..'' @ CHR ''/'' # ?rest)
      = ''subscription'' # ''..'' # x # xs"
    using split_char_at [of "CHR ''/''" "''subscription''" "''..'' @ CHR ''/'' # ?rest"]
      split_char_at [of "CHR ''/''" "''..''" ?rest] sp
    by simp
  moreover have "path_segments [] (''subscription'' # ''..'' # x # xs) = path_segments [] (x # xs)"
    by (simp add: single_dot_def double_dot_def)
  ultimately show ?thesis
    by (simp add: pathname_of_def sp)
qed

lemma parser_examples:
  "pathname_of ''/subscription/..%2fetc%2fpasswd'' = ''/subscription/'' @ ''..%2fetc%2fpasswd''"
  "pathname_of ''/subscription/a/b'' = ''/subscription/'' @ ''a/b''"
  "pathname_of ''/subscription/'' = ''/subscription/'' @ []"
  "pathname_of ''/subscription/abcdefghijklmnop'' = ''/subscription/'' @ ''abcdefghijklmnop''"
  "pathname_of ''/subscription/../etc/passwd'' = ''/etc/passwd''"
  "pathname_of ''/etc/passwd'' = ''/etc/passwd''"
  by code_simp+

text \<open>
  C8, as the code has it. The key is what is left of \<open>url.pathname\<close>, the path after the
  URL parser. For a request whose pathname is \<open>/subscription/\<close> followed by a key: when
  the key is empty, contains \<open>/\<close> or contains \<open>..\<close> (as \<open>..%2fetc%2fpasswd\<close> does, which the
  parser leaves alone), the answer is 400 \<open>Invalid key\<close> whatever the store holds, the check
  coming before the store is read; when the key passes the check and the store has nothing
  under it, the answer is 404 \<open>Not Found\<close>. A literal \<open>../\<close> after \<open>/subscription/\<close> never
  comes as a key: the parser removes it with the segment before it, and the request is
  routed by the path that remains.
\<close>

theorem invalid_key_rejected:
  "(url_pathname (req_url rq) = pathname_of raw \<and> pathname_of raw = ''/subscription/'' @ key
      \<and> (key = [] \<or> includes_str key ''/'' \<or> includes_str key ''..'')
     \<longrightarrow> handler E rq s
         = (Reply \<lparr>resp_status = 400, resp_body = Text ''Invalid key'', resp_headers = []\<rparr>, s))
   \<and> (url_pathname (req_url rq) = pathname_of raw \<and> pathname_of raw = ''/subscription/'' @ key
      \<and> key \<noteq> [] \<and> \<not> includes_str key ''/'' \<and> \<not> includes_str key ''..''
      \<and> memoryCache s key = None
     \<longrightarrow> handler E rq s
         = (Reply \<lparr>resp_status = 404, resp_body = Text ''Not Found'', resp_headers = []\<rparr>, s))
   \<and> pathname_of (''/subscription/../'' @ rest) = pathname_of (CHR ''/'' # rest)"
proof (intro conjI impI)
  assume a: "url_pathname (req_url rq) = pathname_of raw \<and> pathname_of raw = ''/subscription/'' @ key
      \<and> (key = [] \<or> includes_str key ''/'' \<or> includes_str key ''..'')"
  then have "url_pathname (req_url rq) = ''/subscription/'' @ key" by simp
  from handler_subscription [OF this] a
  show "handler E rq s
         = (Reply \<lparr>resp_status = 400, resp_body = Text ''Invalid key'', resp_headers = []\<rparr>, s)"
    by (auto simp: serve_stored_def key_of_path Let_def simp del: includes_str.simps)
next
  assume a: "url_pathname (req_url rq) = pathname_of raw \<and> pathname_of raw = ''/subscription/'' @ key
      \<and> key \<noteq> [] \<and> \<not> includes_str key ''/'' \<and> \<not> includes_str key ''..''
      \<and> memoryCache s key = None"
  then have "url_pathname (req_url rq) = ''/subscription/'' @ key" by simp
  from handler_subscription [OF this] a
  show "handler E rq s
         = (Reply \<lparr>resp_status = 404, resp_body = Text ''Not Found'', resp_headers = []\<rparr>, s)"
    by (auto simp: serve_stored_def key_of_path Let_def simp del: includes_str.simps)
next
  show "pathname_of (''/subscription/../'' @ rest) = pathname_of (CHR ''/'' # rest)"
    by (rule pathname_of_parent)
qed

text \<open>Keys of the kind the spec names, as the parser delivers them, and a well-formed key
  on an empty store.\<close>

theorem invalid_key_rejected_witness:
  "handler offline_env (request_to ''/subscription/..%2fetc%2fpasswd'') empty_state
     = (Reply \<lparr>resp_status = 400, resp_body = Text ''Invalid key'', resp_headers = []\<rparr>, empty_state)
   \<and> handler offline_env (request_to ''/subscription/a/b'') empty_state
     = (Reply \<lparr>resp_status = 400, resp_body = Text ''Invalid key'', resp_headers = []\<rparr>, empty_state)
   \<and> handler offline_env (request_to ''/subscription/'') empty_state
     = (Reply \<lparr>resp_status = 400, resp_body = Text ''Invalid key'', resp_headers = []\<rparr>, empty_state)
   \<and> handler offline_env (request_to ''/subscription/abcdefghijklmnop'') empty_state
     = (Reply \<lparr>resp_status = 404, resp_body = Text ''Not Found'', resp_headers = []\<rparr>, empty_state)
   \<and> pathname_of (''/subscription/../'' @ ''etc/passwd'') = pathname_of (CHR ''/'' # ''etc/passwd'')"
proof -
  have a: "includes_str ''..%2fetc%2fpasswd'' ''..''" "includes_str ''a/b'' ''/''"
    "''abcdefghijklmnop'' \<noteq> []" "\<not> includes_str ''abcdefghijklmnop'' ''/''"
    "\<not> includes_str ''abcdefghijklmnop'' ''..''"
    by code_simp+
  have b: "memoryCache empty_state ''abcdefghijklmnop'' = None"
    by (simp add: empty_state_def)
  note t = invalid_key_rejected [where E = offline_env and s = empty_state]
  show ?thesis
    using t [where rq = "request_to ''/subscription/..%2fetc%2fpasswd''"
            and raw = "''/subscription/..%2fetc%2fpasswd''" and key = "''..%2fetc%2fpasswd''"
            and rest = "''etc/passwd''"]
      t [where rq = "request_to ''/subscription/a/b''"
            and raw = "''/subscription/a/b''" and key = "''a/b''" and rest = "''etc/passwd''"]
      t [where rq = "request_to ''/subscription/''"
            and raw = "''/subscription/''" and key = "[]" and rest = "''etc/passwd''"]
      t [where rq = "request_to ''/subscription/abcdefghijklmnop''"
            and raw = "''/subscription/abcdefghijklmnop''" and key = "''abcdefghijklmnop''"
            and rest = "''etc/passwd''"]
      a b
    by (simp only: request_to_path parser_examples simp_thms)
qed

text \<open>The claim has a literal \<open>../\<close> key rejected with 400 \<open>Invalid key\<close>. The request for
  \<open>/subscription/../etc/passwd\<close> reaches the handler with the pathname \<open>/etc/passwd\<close>, which
  is no subscription path: the answer is the 404 \<open>Not found\<close> of the unknown route.\<close>

theorem invalid_key_rejected_counterexample:
  "includes_str ''../etc/passwd'' ''..''
   \<and> url_pathname (req_url (get_subscription ''../etc/passwd'')) = ''/etc/passwd''
   \<and> handler offline_env (get_subscription ''../etc/passwd'') empty_state
     = (Reply \<lparr>resp_status = 404, resp_body = Text ''Not found'', resp_headers = []\<rparr>, empty_state)"
proof -
  have i: "includes_str ''../etc/passwd'' ''..''"
    by code_simp
  have p: "url_pathname (req_url (get_subscription ''../etc/passwd'')) = ''/etc/passwd''"
    using parser_examples(5) by (simp add: get_subscription_def request_to_path)
  have r: "\<not> startsWith ''/etc/passwd'' ''/subscription/''" "\<not> startsWith ''/etc/passwd'' ''/sub''"
    "''/etc/passwd'' \<noteq> ''/''" "''/etc/passwd'' \<noteq> []" "''/etc/passwd'' \<noteq> ''/version''"
    "''/etc/passwd'' \<noteq> ''/sub''"
    by code_simp+
  have "handler offline_env (get_subscription ''../etc/passwd'') empty_state
     = (Reply \<lparr>resp_status = 404, resp_body = Text ''Not found'', resp_headers = []\<rparr>, empty_state)"
    unfolding handler_def Let_def p using r by (simp only: if_False simp_thms)
  with i p show ?thesis by blast
qed

section \<open>The headers of a fetched response\<close>

lemma update_cors_single:
  "AList.update ''Access-Control-Allow-Origin'' ''*'' [(''Content-Type'', t)]
     = [(''Content-Type'', t), (''Access-Control-Allow-Origin'', ''*'')]"
  by simp

lemma yaml_example:
  "format (parseData ''proxies: []'') = ''yaml''" "''yaml'' \<noteq> ''base64''"
  "trim ''proxies: []'' \<noteq> []" "''abcdefghijklmnop'' \<noteq> []"
  "\<not> includes_str ''abcdefghijklmnop'' ''/''" "\<not> includes_str ''abcdefghijklmnop'' ''..''"
  by code_simp+

lemma yaml_fetch:
  "network yaml_env n u hs
     = Resolved \<lparr>up_status = 200, up_headers = [(''content-type'', ''application/x-yaml'')],
                 up_text = Inr ''proxies: []''\<rparr>"
  by (simp add: yaml_env_def)


lemma base64_example:
  "format (parseData ''dm1lc3M6Ly9hYmMKdmxlc3M6Ly94eXo='') = ''base64''"
  "trim ''dm1lc3M6Ly9hYmMKdmxlc3M6Ly94eXo='' \<noteq> []"
  by code_simp+

lemma base64_fetch:
  "network base64_env n u hs
     = Resolved \<lparr>up_status = 200, up_headers = [(''content-type'', ''application/octet-stream'')],
                 up_text = Inr ''dm1lc3M6Ly9hYmMKdmxlc3M6Ly94eXo=''\<rparr>"
  by (simp add: base64_env_def)

lemma yaml_key: "fst (generateRandomStr yaml_env 16 empty_state) = ''abcdefghijklmnop''"
  using chars_draws
  by (simp add: generateRandomStr_draws yaml_env_def empty_state_def del: upt_Suc)

lemma url_example: "startsWith ''https://a.example/c'' ''https://''"
  by code_simp

lemma for_links_step:
  "for_links E host (link # links) (uris, s)
     = for_links E host links
         (uris @ [host @ ''/subscription/'' @ fst (generateRandomStr E 16 s)],
          cache_set (fst (generateRandomStr E 16 s) @ ''_headers'')
            (Json [(''Content-Type'', ''text/plain'')])
            (cache_set (fst (generateRandomStr E 16 s)) (Text link)
               (s\<lparr>randoms := randoms s + 16\<rparr>)))"
  by (simp add: split_def Let_def generateRandomStr_state subDir_def)

lemma for_links_extends:
  "set uris \<subseteq> set (fst (for_links E host links (uris, s)))"
proof (induction links arbitrary: uris s)
  case Nil
  show ?case by simp
next
  case (Cons link links)
  have "set uris \<subseteq> set (uris @ [host @ ''/subscription/'' @ fst (generateRandomStr E 16 s)])"
    by auto
  also have "\<dots> \<subseteq> set (fst (for_links E host (link # links) (uris, s)))"
    unfolding for_links_step by (rule Cons.IH)
  finally show ?case .
qed

lemma for_links_untouched:
  assumes "set key \<subseteq> set chars"
    and "host @ ''/subscription/'' @ key \<notin> set (fst (for_links E host links (uris, s)))"
  shows "memoryCache (snd (for_links E host links (uris, s))) key = memoryCache s key
    \<and> memoryCache (snd (for_links E host links (uris, s))) (key @ ''_headers'')
        = memoryCache s (key @ ''_headers'')"
  using assms(2)
proof (induction links arbitrary: uris s)
  case Nil
  show ?case by simp
next
  case (Cons link links)
  let ?k = "fst (generateRandomStr E 16 s)"
  let ?s3 = "cache_set (?k @ ''_headers'') (Json [(''Content-Type'', ''text/plain'')])
               (cache_set ?k (Text link) (s\<lparr>randoms := randoms s + 16\<rparr>))"
  let ?uris = "uris @ [host @ ''/subscription/'' @ ?k]"
  have notin: "host @ ''/subscription/'' @ key \<notin> set (fst (for_links E host links (?uris, ?s3)))"
    using Cons.prems unfolding for_links_step .
  have "host @ ''/subscription/'' @ ?k \<in> set (fst (for_links E host links (?uris, ?s3)))"
    using for_links_extends [of ?uris E host links ?s3] by auto
  with notin have ne: "?k \<noteq> key" by auto
  have k: "set ?k \<subseteq> set chars" by (rule generateRandomStr_chars)
  have ne2: "?k @ ''_headers'' \<noteq> key" "?k \<noteq> key @ ''_headers''"
    using key_not_headers [OF assms(1), of ?k] key_not_headers [OF k, of key] by auto
  have "memoryCache ?s3 key = memoryCache s key"
    "memoryCache ?s3 (key @ ''_headers'') = memoryCache s (key @ ''_headers'')"
    using ne ne2 by (auto simp: cache_set_def)
  with Cons.IH [OF notin] show ?case
    by (simp only: for_links_step)
qed

lemma chars_draws3: "map (\<lambda>i. chars ! ((32 + i) mod length chars)) [0..<16] = ''6789abcdefghijkl''"
  by code_simp

lemma links_example:
  "links_of (data (parseData ''dm1lc3M6Ly9hYmMKdmxlc3M6Ly94eXo='')) = [''vmess://abc'', ''vless://xyz'']"
  by code_simp

lemma key_example: "set ''abcdefghijklmnop'' \<subseteq> set chars"
  by code_simp

lemma fromEntries_example:
  "fromEntries [(''content-type'', ''application/x-yaml'')] = [(''content-type'', ''application/x-yaml'')]"
  "fromEntries [(''content-type'', ''application/octet-stream'')] = [(''content-type'', ''application/octet-stream'')]"
  by code_simp+


lemma base64_key2:
  "fst (generateRandomStr base64_env 16 s)
     = map (\<lambda>i. chars ! ((randoms s + i) mod length chars)) [0..<16]"
  by (simp add: generateRandomStr_draws base64_env_def del: upt_Suc)

lemma base64_links_loop:
  "for_links base64_env ''https://example.com'' [''vmess://abc'', ''vless://xyz'']
       ([], s\<lparr>randoms := 16\<rparr>)
     = ([''https://example.com/subscription/qrstuvwxyz012345'',
         ''https://example.com/subscription/6789abcdefghijkl''],
        cache_set ''6789abcdefghijkl_headers'' (Json [(''Content-Type'', ''text/plain'')])
          (cache_set ''6789abcdefghijkl'' (Text ''vless://xyz'')
             ((cache_set ''qrstuvwxyz012345_headers'' (Json [(''Content-Type'', ''text/plain'')])
                 (cache_set ''qrstuvwxyz012345'' (Text ''vmess://abc'')
                    (s\<lparr>randoms := 32\<rparr>)))
              \<lparr>randoms := 48\<rparr>)))"
proof -
  let ?s1 = "cache_set (''qrstuvwxyz012345'' @ ''_headers'') (Json [(''Content-Type'', ''text/plain'')])
                 (cache_set ''qrstuvwxyz012345'' (Text ''vmess://abc'')
                    (s\<lparr>randoms := 16, randoms := randoms (s\<lparr>randoms := 16\<rparr>) + 16\<rparr>))"
  have k1: "fst (generateRandomStr base64_env 16 (s\<lparr>randoms := 16\<rparr>)) = ''qrstuvwxyz012345''"
    using chars_draws2 by (simp add: base64_key2 del: upt_Suc)
  have r: "randoms ?s1 = 32"
    by (simp add: cache_set_def)
  have k2: "fst (generateRandomStr base64_env 16 ?s1) = ''6789abcdefghijkl''"
    unfolding base64_key2 r using chars_draws3 by (simp del: upt_Suc)
  have "for_links base64_env ''https://example.com'' [''vmess://abc'', ''vless://xyz'']
       ([], s\<lparr>randoms := 16\<rparr>)
     = ([] @ [''https://example.com'' @ ''/subscription/'' @ ''qrstuvwxyz012345'']
           @ [''https://example.com'' @ ''/subscription/'' @ ''6789abcdefghijkl''],
        cache_set (''6789abcdefghijkl'' @ ''_headers'') (Json [(''Content-Type'', ''text/plain'')])
          (cache_set ''6789abcdefghijkl'' (Text ''vless://xyz'')
             (?s1\<lparr>randoms := randoms ?s1 + 16\<rparr>)))"
    by (simp only: for_links_step k1 k2 for_links.simps(1) append_assoc)
  then show ?thesis
    by (simp add: r cache_set_def)
qed

text \<open>
  C9, as the code has it. After a successful fetch of a URL segment the headers of the
  response are written under \<open>key_headers\<close>, \<open>key\<close> being the key of the generator drawn for
  the segment. When the body is not classified as base64, the body is then stored under
  the key and the entry \<open>key_headers\<close> is written again, with
  \<open>Content-Type: text/plain;charset=UTF-8\<close> alone: these are the headers the subscription
  route serves with the body, not the fetched ones. When the body is classified as base64,
  the loop over the links starts with the fetched headers under \<open>key_headers\<close>; and unless
  the URI of the segment's own key is among the URIs the branch returns (the key drawn
  again for a link), the fetched headers are still under \<open>key_headers\<close> after the loop, which
  has left what the store held under the key as it was.
\<close>

theorem fetched_headers_replaced:
  assumes "network E (length (fetches s)) p (segment_fetch_headers request) = Resolved r"
    and "up_ok r" "up_text r = Inr content" "content \<noteq> []" "trim content \<noteq> []"
    and "key \<noteq> []" "set key \<subseteq> set chars"
  shows "(format (parseData content) \<noteq> ''base64'' \<longrightarrow>
      fst (url_branch E request host key p (uris, s)) = uris @ [host @ ''/subscription/'' @ key]
      \<and> snd (url_branch E request host key p (uris, s))
          = cache_set (key @ ''_headers'') (Json [(''Content-Type'', ''text/plain;charset=UTF-8'')])
              (cache_set key (Text content)
                 (cache_set (key @ ''_headers'') (Json (fromEntries (up_headers r)))
                    (s\<lparr>fetches := fetches s @ [(p, segment_fetch_headers request)]\<rparr>)))
      \<and> handler E' (get_subscription key) (snd (url_branch E request host key p (uris, s)))
          = (Reply \<lparr>resp_status = 200, resp_body = Text content,
                    resp_headers = [(''Content-Type'', ''text/plain;charset=UTF-8''),
                                    (''Access-Control-Allow-Origin'', ''*'')]\<rparr>,
             snd (url_branch E request host key p (uris, s))))
    \<and> (format (parseData content) = ''base64'' \<longrightarrow>
      url_branch E request host key p (uris, s)
        = for_links E host (links_of (data (parseData content)))
            (uris, cache_set (key @ ''_headers'') (Json (fromEntries (up_headers r)))
                     (s\<lparr>fetches := fetches s @ [(p, segment_fetch_headers request)]\<rparr>))
      \<and> (host @ ''/subscription/'' @ key \<notin> set (fst (url_branch E request host key p (uris, s)))
         \<longrightarrow> memoryCache (snd (url_branch E request host key p (uris, s))) (key @ ''_headers'')
               = Some (Json (fromEntries (up_headers r)))
           \<and> memoryCache (snd (url_branch E request host key p (uris, s))) key
               = memoryCache s key))"
proof (intro conjI impI)
  assume f: "format (parseData content) \<noteq> ''base64''"
  let ?s1 = "cache_set (key @ ''_headers'') (Json (fromEntries (up_headers r)))
                    (s\<lparr>fetches := fetches s @ [(p, segment_fetch_headers request)]\<rparr>)"
  let ?s' = "cache_set (key @ ''_headers'') (Json [(''Content-Type'', ''text/plain;charset=UTF-8'')])
              (cache_set key (Text content) ?s1)"
  have eq: "url_branch E request host key p (uris, s) = (uris @ [host @ ''/subscription/'' @ key], ?s')"
    unfolding url_branch_stored [OF assms(1-5) f]
    by (simp add: store_and_push_def subDir_def)
  show "fst (url_branch E request host key p (uris, s)) = uris @ [host @ ''/subscription/'' @ key]"
    and "snd (url_branch E request host key p (uris, s)) = ?s'"
    by (simp_all add: eq)
  show "handler E' (get_subscription key) (snd (url_branch E request host key p (uris, s)))
          = (Reply \<lparr>resp_status = 200, resp_body = Text content,
                    resp_headers = [(''Content-Type'', ''text/plain;charset=UTF-8''),
                                    (''Access-Control-Allow-Origin'', ''*'')]\<rparr>,
             snd (url_branch E request host key p (uris, s)))"
    unfolding eq snd_conv
    using stored_then_served [OF assms(6,7,4), of E'
        "[(''Content-Type'', ''text/plain;charset=UTF-8'')]" ?s1]
    by (simp only: update_cors_single)
next
  assume f: "format (parseData content) = ''base64''"
  let ?s1 = "cache_set (key @ ''_headers'') (Json (fromEntries (up_headers r)))
                    (s\<lparr>fetches := fetches s @ [(p, segment_fetch_headers request)]\<rparr>)"
  note eq = url_branch_exploded [OF assms(1-5) f, of host key uris]
  show "url_branch E request host key p (uris, s)
        = for_links E host (links_of (data (parseData content))) (uris, ?s1)"
    by (rule eq)
  assume "host @ ''/subscription/'' @ key \<notin> set (fst (url_branch E request host key p (uris, s)))"
  then have "host @ ''/subscription/'' @ key
      \<notin> set (fst (for_links E host (links_of (data (parseData content))) (uris, ?s1)))"
    unfolding eq .
  from for_links_untouched [OF assms(7) this]
  have "memoryCache (snd (url_branch E request host key p (uris, s))) key = memoryCache ?s1 key"
    and "memoryCache (snd (url_branch E request host key p (uris, s))) (key @ ''_headers'')
        = memoryCache ?s1 (key @ ''_headers'')"
    unfolding eq by simp_all
  moreover have "memoryCache ?s1 key = memoryCache s key"
    "memoryCache ?s1 (key @ ''_headers'') = Some (Json (fromEntries (up_headers r)))"
    using key_not_headers [OF assms(7), of key] by (auto simp: cache_set_def)
  ultimately show "memoryCache (snd (url_branch E request host key p (uris, s))) (key @ ''_headers'')
               = Some (Json (fromEntries (up_headers r)))"
    and "memoryCache (snd (url_branch E request host key p (uris, s))) key = memoryCache s key"
    by simp_all
qed

text \<open>A Clash configuration fetched with the first key on an empty store; and the base64
  of two links fetched with the first key after its sixteen draws, so that the links get
  the second and the third key.\<close>

theorem fetched_headers_replaced_witness:
  "fst (url_branch yaml_env (example_request [] []) ''https://example.com'' ''abcdefghijklmnop''
          ''https://a.example/c'' ([], empty_state))
     = [] @ [''https://example.com'' @ ''/subscription/'' @ ''abcdefghijklmnop'']
   \<and> handler yaml_env (get_subscription ''abcdefghijklmnop'')
        (snd (url_branch yaml_env (example_request [] []) ''https://example.com''
                ''abcdefghijklmnop'' ''https://a.example/c'' ([], empty_state)))
     = (Reply \<lparr>resp_status = 200, resp_body = Text ''proxies: []'',
               resp_headers = [(''Content-Type'', ''text/plain;charset=UTF-8''),
                               (''Access-Control-Allow-Origin'', ''*'')]\<rparr>,
        snd (url_branch yaml_env (example_request [] []) ''https://example.com''
                ''abcdefghijklmnop'' ''https://a.example/c'' ([], empty_state)))
   \<and> fst (url_branch base64_env (example_request [] []) ''https://example.com''
          ''abcdefghijklmnop'' ''https://a.example/c'' ([], empty_state\<lparr>randoms := 16\<rparr>))
     = [''https://example.com/subscription/qrstuvwxyz012345'',
        ''https://example.com/subscription/6789abcdefghijkl'']
   \<and> memoryCache (snd (url_branch base64_env (example_request [] []) ''https://example.com''
          ''abcdefghijklmnop'' ''https://a.example/c'' ([], empty_state\<lparr>randoms := 16\<rparr>)))
        (''abcdefghijklmnop'' @ ''_headers'')
     = Some (Json [(''content-type'', ''application/octet-stream'')])
   \<and> memoryCache (snd (url_branch base64_env (example_request [] []) ''https://example.com''
          ''abcdefghijklmnop'' ''https://a.example/c'' ([], empty_state\<lparr>randoms := 16\<rparr>)))
        ''abcdefghijklmnop''
     = None"
proof -
  have ok: "up_ok \<lparr>up_status = 200, up_headers = hs, up_text = t\<rparr>" for hs t
    by (simp add: up_ok_def)
  have body: "up_text \<lparr>up_status = 200, up_headers = hs, up_text = t\<rparr> = t" for hs t
    by simp
  have y: "format (parseData ''proxies: []'') \<noteq> ''base64''" "''proxies: []'' \<noteq> []"
    using yaml_example by simp_all
  have b: "''dm1lc3M6Ly9hYmMKdmxlc3M6Ly94eXo='' \<noteq> []"
    by simp
  note w1 = fetched_headers_replaced [OF yaml_fetch ok body y(2) yaml_example(3,4) key_example,
        where s = empty_state and p = "''https://a.example/c''"
        and request = "example_request [] []" and host = "''https://example.com''"
        and uris = "[]" and E' = yaml_env]
  note w2 = fetched_headers_replaced [OF base64_fetch ok body b base64_example(2) yaml_example(4)
        key_example,
        where s = "empty_state\<lparr>randoms := 16\<rparr>" and p = "''https://a.example/c''"
        and request = "example_request [] []" and host = "''https://example.com''"
        and uris = "[]" and E' = yaml_env]
  from w2 base64_example(1)
  have eq: "url_branch base64_env (example_request [] []) ''https://example.com''
          ''abcdefghijklmnop'' ''https://a.example/c'' ([], empty_state\<lparr>randoms := 16\<rparr>)
     = for_links base64_env ''https://example.com'' [''vmess://abc'', ''vless://xyz'']
         ([], (cache_set (''abcdefghijklmnop'' @ ''_headers'')
                (Json (fromEntries [(''content-type'', ''application/octet-stream'')]))
                (empty_state\<lparr>fetches := fetches empty_state
                   @ [(''https://a.example/c'', segment_fetch_headers (example_request [] []))]\<rparr>))
              \<lparr>randoms := 16\<rparr>)"
    by (simp add: links_example cache_set_def empty_state_def)
  have uris: "fst (url_branch base64_env (example_request [] []) ''https://example.com''
          ''abcdefghijklmnop'' ''https://a.example/c'' ([], empty_state\<lparr>randoms := 16\<rparr>))
     = [''https://example.com/subscription/qrstuvwxyz012345'',
        ''https://example.com/subscription/6789abcdefghijkl'']"
    unfolding eq base64_links_loop by simp
  have notin: "''https://example.com'' @ ''/subscription/'' @ ''abcdefghijklmnop''
     \<notin> set (fst (url_branch base64_env (example_request [] []) ''https://example.com''
          ''abcdefghijklmnop'' ''https://a.example/c'' ([], empty_state\<lparr>randoms := 16\<rparr>)))"
    unfolding uris by simp
  have none: "memoryCache (empty_state\<lparr>randoms := 16\<rparr>) ''abcdefghijklmnop'' = None"
    by (simp add: empty_state_def)
  note a = w1 [THEN conjunct1, THEN mp, OF y(1)]
  note c = w2 [THEN conjunct2, THEN mp, OF base64_example(1), THEN conjunct2, THEN mp, OF notin]
  have hs: "up_headers \<lparr>up_status = 200, up_headers = hs, up_text = t\<rparr> = hs" for hs t
    by simp
  from a have a1: "fst (url_branch yaml_env (example_request [] []) ''https://example.com''
          ''abcdefghijklmnop'' ''https://a.example/c'' ([], empty_state))
     = [] @ [''https://example.com'' @ ''/subscription/'' @ ''abcdefghijklmnop'']"
    by (rule conjunct1)
  from a have a2: "handler yaml_env (get_subscription ''abcdefghijklmnop'')
        (snd (url_branch yaml_env (example_request [] []) ''https://example.com''
                ''abcdefghijklmnop'' ''https://a.example/c'' ([], empty_state)))
     = (Reply \<lparr>resp_status = 200, resp_body = Text ''proxies: []'',
               resp_headers = [(''Content-Type'', ''text/plain;charset=UTF-8''),
                               (''Access-Control-Allow-Origin'', ''*'')]\<rparr>,
        snd (url_branch yaml_env (example_request [] []) ''https://example.com''
                ''abcdefghijklmnop'' ''https://a.example/c'' ([], empty_state)))"
    by (rule conjunct2 [THEN conjunct2])
  from c have c1: "memoryCache (snd (url_branch base64_env (example_request [] [])
          ''https://example.com'' ''abcdefghijklmnop'' ''https://a.example/c''
          ([], empty_state\<lparr>randoms := 16\<rparr>)))
        (''abcdefghijklmnop'' @ ''_headers'')
     = Some (Json [(''content-type'', ''application/octet-stream'')])"
    unfolding hs fromEntries_example by (rule conjunct1)
  from c have c2: "memoryCache (snd (url_branch base64_env (example_request [] [])
          ''https://example.com'' ''abcdefghijklmnop'' ''https://a.example/c''
          ([], empty_state\<lparr>randoms := 16\<rparr>)))
        ''abcdefghijklmnop''
     = None"
    unfolding none by (rule conjunct2)
  from a1 a2 uris c1 c2 show ?thesis
    by (intro conjI)
qed

text \<open>The claim has the fetched headers served with a body stored without explosion. A URL
  that answers with a Clash configuration and \<open>content-type: application/x-yaml\<close> is
  served back with \<open>text/plain;charset=UTF-8\<close>, and the fetched headers are no longer in the
  store.\<close>

theorem fetched_headers_served_counterexample:
  "handler yaml_env (get_subscription ''abcdefghijklmnop'')
        (snd (for_urlParts yaml_env (example_request [] []) ''https://example.com''
                [''https://a.example/c''] ([], empty_state)))
     = (Reply \<lparr>resp_status = 200, resp_body = Text ''proxies: []'',
               resp_headers = [(''Content-Type'', ''text/plain;charset=UTF-8''),
                               (''Access-Control-Allow-Origin'', ''*'')]\<rparr>,
        snd (for_urlParts yaml_env (example_request [] []) ''https://example.com''
                [''https://a.example/c''] ([], empty_state)))
   \<and> memoryCache (snd (for_urlParts yaml_env (example_request [] []) ''https://example.com''
                [''https://a.example/c''] ([], empty_state))) ''abcdefghijklmnop_headers''
     \<noteq> Some (Json (fromEntries [(''content-type'', ''application/x-yaml'')]))"
proof -
  let ?s0 = "empty_state\<lparr>randoms := randoms empty_state + 16\<rparr>"
  let ?s1 = "cache_set (''abcdefghijklmnop'' @ ''_headers'')
               (Json (fromEntries [(''content-type'', ''application/x-yaml'')]))
               (?s0\<lparr>fetches := fetches ?s0
                  @ [(''https://a.example/c'', segment_fetch_headers (example_request [] []))]\<rparr>)"
  let ?s' = "cache_set (''abcdefghijklmnop'' @ ''_headers'')
               (Json [(''Content-Type'', ''text/plain;charset=UTF-8'')])
               (cache_set ''abcdefghijklmnop'' (Text ''proxies: []'') ?s1)"
  have ok: "up_ok \<lparr>up_status = 200, up_headers = hs, up_text = t\<rparr>" for hs t
    by (simp add: up_ok_def)
  have "url_branch yaml_env (example_request [] []) ''https://example.com'' ''abcdefghijklmnop''
          ''https://a.example/c'' ([], ?s0)
     = store_and_push ''https://example.com'' ''abcdefghijklmnop'' ''proxies: []''
         ''text/plain;charset=UTF-8'' ([], ?s1)"
    using url_branch_stored [OF yaml_fetch ok, where content = "''proxies: []''" and s = ?s0
        and p = "''https://a.example/c''" and request = "example_request [] []"
        and host = "''https://example.com''" and key = "''abcdefghijklmnop''" and uris = "[]"]
      yaml_example by simp
  then have loop: "snd (for_urlParts yaml_env (example_request [] []) ''https://example.com''
                [''https://a.example/c''] ([], empty_state)) = ?s'"
    by (simp add: for_urlParts_step segment_def url_example yaml_key store_and_push_def
          del: for_urlParts.simps(2))
  have served: "handler yaml_env (get_subscription ''abcdefghijklmnop'') ?s'
     = (Reply \<lparr>resp_status = 200, resp_body = Text ''proxies: []'',
               resp_headers = AList.update ''Access-Control-Allow-Origin'' ''*''
                 [(''Content-Type'', ''text/plain;charset=UTF-8'')]\<rparr>, ?s')"
    using yaml_example(2,4) key_example by (intro stored_then_served) simp_all
  have differs: "memoryCache ?s' ''abcdefghijklmnop_headers''
     \<noteq> Some (Json (fromEntries [(''content-type'', ''application/x-yaml'')]))"
    unfolding fromEntries_example by (simp add: cache_set_def)
  show ?thesis
    unfolding loop using served differs by (simp only: update_cors_single) simp
qed

section \<open>A segment that is neither a URL nor a node link\<close>

lemma encoded_link_example:
  "urlParts_of ''dm1lc3M6Ly9hYmM='' = [''dm1lc3M6Ly9hYmM='']"
  "\<not> startsWith ''dm1lc3M6Ly9hYmM='' ''https://''"
  "\<not> startsWith ''dm1lc3M6Ly9hYmM='' ''http://''"
  "\<not> direct_link ''dm1lc3M6Ly9hYmM=''"
  "atob (remove_spaces ''dm1lc3M6Ly9hYmM='') = Some ''vmess://abc''"
  "format (parseData ''vmess://abc'') = ''direct''"
  "''direct'' \<noteq> ''base64''"
  by code_simp+

text \<open>
  C2 at the segment \<open>dm1lc3M6Ly9hYmM=\<close>, the base64 of \<open>vmess://abc\<close>. The segment is not a
  URL and not a node link; \<open>atob\<close> decodes it, and the decoded text is classified once more:
  it is a node link, not base64, so the branch stores nothing and pushes nothing. As the only
  segment of a request it leaves the list empty, and the request fails with the 400
  response, in every world and from every store.
\<close>

theorem encoded_link_dropped:
  "decode_branch E host key ''dm1lc3M6Ly9hYmM='' (uris, s) = (uris, s)
   \<and> resolve E request ''dm1lc3M6Ly9hYmM='' s = (all_invalid, s\<lparr>randoms := randoms s + 16\<rparr>)"
proof
  show d: "decode_branch E host key ''dm1lc3M6Ly9hYmM='' (uris, s) = (uris, s)" for E host key uris s
    by (simp add: decode_branch_def encoded_link_example Let_def)
  have "for_urlParts E request (getHost request) [''dm1lc3M6Ly9hYmM=''] ([], s)
      = ([], s\<lparr>randoms := randoms s + 16\<rparr>)"
    by (simp add: for_urlParts_step segment_def encoded_link_example d del: for_urlParts.simps(2))
  then show "resolve E request ''dm1lc3M6Ly9hYmM='' s = (all_invalid, s\<lparr>randoms := randoms s + 16\<rparr>)"
    by (simp add: resolve_def encoded_link_example Let_def)
qed

section \<open>The request with a target\<close>

lemma forwardToBackend_effect:
  "memoryCache (snd (forwardToBackend E rq u backend host sd s)) = memoryCache s
   \<and> randoms (snd (forwardToBackend E rq u backend host sd s)) = randoms s
   \<and> fetches (snd (forwardToBackend E rq u backend host sd s))
       = fetches s @ [(backend @ url_pathname u @ url_search u, backend_fetch_headers rq)]"
  by (simp add: forwardToBackend_def fetch_def Let_def split: fetch_result.splits sum.splits)

lemma sub_route:
  assumes "startsWith p ''/sub''" "\<not> startsWith p ''/subscription/''"
  shows "p \<noteq> ''/''" "p \<noteq> []" "p \<noteq> ''/version''"
  using assms by (auto simp: startsWith_def)

lemma handler_fwd_sub:
  assumes "startsWith (url_pathname (req_url rq)) ''/sub''"
    and "\<not> startsWith (url_pathname (req_url rq)) ''/subscription/''"
  shows "handler_fwd E rq s
    = (Reply (fst (processSubscription_fwd E rq (req_url rq) (BACKEND E) s)),
       snd (processSubscription_fwd E rq (req_url rq) (BACKEND E) s))"
  using assms sub_route [OF assms] by (simp add: handler_fwd_def Let_def split_def)

lemma handler_sub:
  assumes "startsWith (url_pathname (req_url rq)) ''/sub''"
    and "\<not> startsWith (url_pathname (req_url rq)) ''/subscription/''"
  shows "handler E rq s
    = (Reply (fst (processSubscription E rq (req_url rq) (BACKEND E) s)),
       snd (processSubscription E rq (req_url rq) (BACKEND E) s))"
  using assms sub_route [OF assms] by (simp add: handler_def Let_def split_def)

lemma for_urlParts_fwd_step:
  "for_urlParts_fwd E request host (p # ps) (uris, s)
    = for_urlParts_fwd E request host ps
        (segment_fwd E request host (fst (generateRandomStr E 16 s)) p
           (uris, s\<lparr>randoms := randoms s + 16\<rparr>))"
  by (simp add: split_def generateRandomStr_state)

lemma direct_step_fwd:
  assumes "\<not> startsWith p ''https://''" "\<not> startsWith p ''http://''" "direct_link p"
  shows "for_urlParts_fwd E request host (p # ps) (uris, s)
    = for_urlParts_fwd E request host ps
        (uris @ [host @ ''/subscription/'' @ fst (generateRandomStr E 16 s)],
         cache_set (fst (generateRandomStr E 16 s) @ ''_headers'')
           (Json [(''Content-Type'', ''text/plain'')])
           (cache_set (fst (generateRandomStr E 16 s)) (Text p)
              (s\<lparr>randoms := randoms s + 16\<rparr>)))"
  using assms by (simp add: for_urlParts_fwd_step segment_fwd_def store_and_push_def subDir_def
    del: for_urlParts_fwd.simps)

lemma single_link_example: "urlParts_of ''vmess://abc'' = [''vmess://abc'']"
  by code_simp

lemma example_path:
  "startsWith (url_pathname (req_url (example_request q ps))) ''/sub''"
  "\<not> startsWith (url_pathname (req_url (example_request q ps))) ''/subscription/''"
  by (simp_all add: example_request_def startsWith_def)

lemma example_params:
  "searchParams_get (req_url (example_request q ps)) name = map_of ps name"
  "url_search (req_url (example_request q ps)) = q"
  "url_pathname (req_url (example_request q ps)) = ''/sub''"
  by (simp_all add: example_request_def searchParams_get_def)

lemma offline_backend: "BACKEND offline_env = ''https://api.v1.mk''"
  by (simp add: BACKEND_def offline_env_def)

text \<open>
  C6, as the code has it. In the variant that has the forwarder, a request whose path starts
  with \<open>/sub\<close> (and is not a subscription path) and whose parameters \<open>url\<close> and \<open>target\<close> are
  both there with non-empty values is answered by \<open>forwardToBackend\<close> alone: no key is drawn,
  nothing is stored, and the one \<open>fetch\<close> goes to the backend followed by the path and the
  query string of the request as they came.
\<close>

theorem target_forwarded:
  assumes "startsWith (url_pathname (req_url rq)) ''/sub''"
    and "\<not> startsWith (url_pathname (req_url rq)) ''/subscription/''"
    and "truthy (searchParams_get (req_url rq) ''url'')"
    and "truthy (searchParams_get (req_url rq) ''target'')"
  shows "handler_fwd E rq s
      = (Reply (fst (forwardToBackend E rq (req_url rq) (BACKEND E) (getHost rq) subDir s)),
         snd (forwardToBackend E rq (req_url rq) (BACKEND E) (getHost rq) subDir s))
    \<and> memoryCache (snd (handler_fwd E rq s)) = memoryCache s
    \<and> randoms (snd (handler_fwd E rq s)) = randoms s
    \<and> fetches (snd (handler_fwd E rq s))
        = fetches s @ [(BACKEND E @ url_pathname (req_url rq) @ url_search (req_url rq),
                        backend_fetch_headers rq)]"
proof -
  have "processSubscription_fwd E rq (req_url rq) (BACKEND E) s
      = forwardToBackend E rq (req_url rq) (BACKEND E) (getHost rq) subDir s"
    using assms(3,4)
    by (auto simp: processSubscription_fwd_def truthy_def Let_def split: option.splits)
  then show ?thesis
    using forwardToBackend_effect [of E rq "req_url rq" "BACKEND E" "getHost rq" subDir s]
    by (simp add: handler_fwd_sub [OF assms(1,2)])
qed


theorem target_forwarded_witness:
  "handler_fwd offline_env
       (example_request ''?url=X&target=clash'' [(''url'', ''X''), (''target'', ''clash'')]) empty_state
     = (Reply (fst (forwardToBackend offline_env
                 (example_request ''?url=X&target=clash'' [(''url'', ''X''), (''target'', ''clash'')])
                 (req_url (example_request ''?url=X&target=clash''
                    [(''url'', ''X''), (''target'', ''clash'')]))
                 (BACKEND offline_env)
                 (getHost (example_request ''?url=X&target=clash''
                    [(''url'', ''X''), (''target'', ''clash'')])) subDir empty_state)),
        snd (forwardToBackend offline_env
                 (example_request ''?url=X&target=clash'' [(''url'', ''X''), (''target'', ''clash'')])
                 (req_url (example_request ''?url=X&target=clash''
                    [(''url'', ''X''), (''target'', ''clash'')]))
                 (BACKEND offline_env)
                 (getHost (example_request ''?url=X&target=clash''
                    [(''url'', ''X''), (''target'', ''clash'')])) subDir empty_state))
   \<and> memoryCache (snd (handler_fwd offline_env
       (example_request ''?url=X&target=clash'' [(''url'', ''X''), (''target'', ''clash'')])
       empty_state)) = memoryCache empty_state
   \<and> randoms (snd (handler_fwd offline_env
       (example_request ''?url=X&target=clash'' [(''url'', ''X''), (''target'', ''clash'')])
       empty_state)) = randoms empty_state
   \<and> fetches (snd (handler_fwd offline_env
       (example_request ''?url=X&target=clash'' [(''url'', ''X''), (''target'', ''clash'')])
       empty_state))
     = fetches empty_state
       @ [(BACKEND offline_env
           @ url_pathname (req_url (example_request ''?url=X&target=clash''
                [(''url'', ''X''), (''target'', ''clash'')]))
           @ url_search (req_url (example_request ''?url=X&target=clash''
                [(''url'', ''X''), (''target'', ''clash'')])),
         backend_fetch_headers
           (example_request ''?url=X&target=clash'' [(''url'', ''X''), (''target'', ''clash'')]))]"
proof -
  let ?rq = "example_request ''?url=X&target=clash'' [(''url'', ''X''), (''target'', ''clash'')]"
  have t: "truthy (searchParams_get (req_url ?rq) ''url'')"
    "truthy (searchParams_get (req_url ?rq) ''target'')"
    by (simp_all add: example_params truthy_def)
  show ?thesis
    by (rule target_forwarded [OF example_path t])
qed

text \<open>The claim asks only that \<open>target\<close> be present. With \<open>target\<close> present and empty, the
  variant with the forwarder resolves the links itself (no \<open>fetch\<close>, a key drawn, the link
  stored); and the variant without the forwarder does so for every \<open>target\<close>.\<close>

theorem target_present_counterexample:
  "map_of [(''url'', ''vmess://abc''), (''target'', [])] ''target'' = Some []
   \<and> fetches (snd (handler_fwd offline_env
        (example_request ''?url=vmess://abc&target='' [(''url'', ''vmess://abc''), (''target'', [])])
        empty_state)) = []
   \<and> memoryCache (snd (handler_fwd offline_env
        (example_request ''?url=vmess://abc&target='' [(''url'', ''vmess://abc''), (''target'', [])])
        empty_state)) ''abcdefghijklmnop'' = Some (Text ''vmess://abc'')
   \<and> fetches (snd (handler offline_env
        (example_request ''?url=vmess://abc&target=clash''
           [(''url'', ''vmess://abc''), (''target'', ''clash'')])
        empty_state)) = []
   \<and> memoryCache (snd (handler offline_env
        (example_request ''?url=vmess://abc&target=clash''
           [(''url'', ''vmess://abc''), (''target'', ''clash'')])
        empty_state)) ''abcdefghijklmnop'' = Some (Text ''vmess://abc'')"
proof -
  let ?s' = "cache_set (''abcdefghijklmnop'' @ ''_headers'') (Json [(''Content-Type'', ''text/plain'')])
           (cache_set ''abcdefghijklmnop'' (Text ''vmess://abc'')
              (empty_state\<lparr>randoms := randoms empty_state + 16\<rparr>))"
  have a: "snd (handler_fwd offline_env
        (example_request ''?url=vmess://abc&target='' [(''url'', ''vmess://abc''), (''target'', [])])
        empty_state) = ?s'"
    by (simp add: handler_fwd_sub [OF example_path] processSubscription_fwd_def example_params
          truthy_def resolve_fwd_def single_link_example direct_step_fwd direct_examples offline_key
          Let_def del: for_urlParts_fwd.simps(2))
  have b: "snd (handler offline_env
        (example_request ''?url=vmess://abc&target=clash''
           [(''url'', ''vmess://abc''), (''target'', ''clash'')])
        empty_state) = ?s'"
    by (simp add: handler_sub [OF example_path] processSubscription_def example_params
          resolve_def single_link_example direct_step direct_examples offline_key
          Let_def del: for_urlParts.simps(2))
  have c: "fetches ?s' = []" "memoryCache ?s' ''abcdefghijklmnop'' = Some (Text ''vmess://abc'')"
    by (simp_all add: cache_set_def empty_state_def)
  show ?thesis unfolding a b using c by simp
qed

section \<open>The rewriting of the backend's answer\<close>

lemma substitution_plain: "CHR ''$'' \<notin> set rep \<Longrightarrow> substitution m pre post rep = rep"
  by (induction m pre post rep rule: substitution.induct) auto

lemma replace_from_plain:
  "CHR ''$'' \<notin> set rep \<Longrightarrow> replace_from pat rep pre s = replace_from pat rep pre' s"
proof (induction pat rep pre s arbitrary: pre' rule: replace_from.induct)
  case (1 pat rep pre)
  show ?case by simp
next
  case (2 pat rep pre c cs)
  show ?case
  proof (cases "pat \<noteq> [] \<and> prefix pat (c # cs)")
    case True
    with 2 show ?thesis by (simp add: substitution_plain)
  next
    case False
    with 2(2) [OF False "2.prems"] show ?thesis by auto
  qed
qed

lemma replace_all_Nil [simp]: "replace_all pat rep [] = []"
  by (simp add: replace_all_def)

lemma replace_all_Cons:
  assumes "CHR ''$'' \<notin> set rep"
  shows "replace_all pat rep (c # cs)
     = (if pat \<noteq> [] \<and> prefix pat (c # cs)
        then rep @ replace_all pat rep (drop (length pat) (c # cs))
        else c # replace_all pat rep cs)"
proof (cases "pat \<noteq> [] \<and> prefix pat (c # cs)")
  case True
  then show ?thesis
    unfolding replace_all_def
    using replace_from_plain [OF assms, of pat "[] @ pat" "drop (length pat) (c # cs)" "[]"]
    by (simp add: substitution_plain [OF assms])
next
  case False
  then show ?thesis
    unfolding replace_all_def
    using replace_from_plain [OF assms, of pat "[] @ [c]" cs "[]"]
    by auto
qed

lemma prefix_append_cases: "prefix p (a @ x) \<Longrightarrow> prefix p a \<or> prefix a p"
  by (auto simp: prefix_append)

lemma prefix_append_short: "length p \<le> length a \<Longrightarrow> prefix p (a @ x) \<Longrightarrow> prefix p a"
  by (auto simp: prefix_append)

lemma prefix_append_long: "\<not> length p \<le> length a \<Longrightarrow> prefix p (a @ x) \<Longrightarrow> prefix a p"
  by (auto simp: prefix_append dest: prefix_length_le)

lemma replace_all_match:
  "CHR ''$'' \<notin> set rep \<Longrightarrow> pat \<noteq> [] \<Longrightarrow>
   replace_all pat rep (pat @ t) = rep @ replace_all pat rep t"
  by (cases pat) (simp_all add: replace_all_Cons)

lemma begins_nowhereD:
  "begins_nowhere pat ins \<Longrightarrow> j < length ins \<Longrightarrow>
   \<not> prefix (drop j ins) pat \<and> \<not> prefix pat (drop j ins)"
  by (simp add: begins_nowhere_def list_all_iff)

lemma reaches_notD:
  "reaches_not pat ins \<Longrightarrow> 0 < j \<Longrightarrow> j < length pat \<Longrightarrow>
   \<not> prefix (drop j pat) ins \<and> \<not> prefix ins (drop j pat)"
  by (simp add: reaches_not_def list_all_iff)

lemma begins_nowhere_tl: "begins_nowhere pat (c # ins) \<Longrightarrow> begins_nowhere pat ins"
proof -
  assume a: "begins_nowhere pat (c # ins)"
  have "\<not> prefix (drop j ins) pat \<and> \<not> prefix pat (drop j ins)" if "j < length ins" for j
    using begins_nowhereD [OF a, of "Suc j"] that by simp
  then show ?thesis by (simp add: begins_nowhere_def list_all_iff)
qed

text \<open>An inserted text in which the pattern begins nowhere is passed over.\<close>

lemma replace_all_skip:
  "CHR ''$'' \<notin> set rep \<Longrightarrow> begins_nowhere pat ins \<Longrightarrow>
   replace_all pat rep (ins @ x) = ins @ replace_all pat rep x"
proof (induction ins)
  case Nil
  show ?case by simp
next
  case (Cons c ins)
  have "\<not> prefix (c # ins) pat" "\<not> prefix pat (c # ins)"
    using begins_nowhereD [OF Cons.prems(2), of 0] by simp_all
  then have "\<not> prefix pat ((c # ins) @ x)"
    using prefix_append_cases [of pat "c # ins" x] by blast
  then have "replace_all pat rep ((c # ins) @ x) = c # replace_all pat rep (ins @ x)"
    using Cons.prems(1) by (simp add: replace_all_Cons)
  then show ?case
    using Cons.IH [OF Cons.prems(1) begins_nowhere_tl [OF Cons.prems(2)]] by simp
qed

text \<open>A replacement whose inserted text the pattern cannot reach into does not bring the
  pattern to the front of a text.\<close>

lemma replace_all_front:
  assumes "CHR ''$'' \<notin> set ins" "reaches_not pat ins"
  shows "pre \<noteq> [] \<Longrightarrow> prefix pat (pre @ replace_all q ins t) \<Longrightarrow> prefix pat (pre @ t)"
proof (induction "length t" arbitrary: t pre rule: less_induct)
  case less
  show ?case
  proof (cases t)
    case Nil
    with less.prems show ?thesis by simp
  next
    case (Cons d t')
    show ?thesis
    proof (cases "q \<noteq> [] \<and> prefix q (d # t')")
      case False
      then have "replace_all q ins t = d # replace_all q ins t'"
        using Cons by (auto simp: replace_all_Cons [OF assms(1)])
      then have "prefix pat ((pre @ [d]) @ replace_all q ins t')"
        using less.prems(2) by simp
      then have "prefix pat ((pre @ [d]) @ t')"
        using less.hyps [of t' "pre @ [d]"] Cons by simp
      then show ?thesis using Cons by simp
    next
      case True
      then have r: "replace_all q ins t = ins @ replace_all q ins (drop (length q) t)"
        using Cons by (auto simp: replace_all_Cons [OF assms(1)])
      show ?thesis
      proof (cases "length pat \<le> length pre")
        case True
        then have "prefix pat pre"
          using less.prems(2) by (rule prefix_append_short)
        then show ?thesis by (simp add: prefix_prefix)
      next
        case False
        then have j: "0 < length pre" "length pre < length pat"
          using less.prems(1) by simp_all
        have "prefix pre pat"
          using False less.prems(2) by (rule prefix_append_long)
        then obtain z where z: "pat = pre @ z" by (auto simp: prefix_def)
        then have "prefix z (ins @ replace_all q ins (drop (length q) t))"
          using less.prems(2) r by simp
        then have "prefix z ins \<or> prefix ins z"
          by (rule prefix_append_cases)
        moreover have "drop (length pre) pat = z" using z by simp
        ultimately show ?thesis
          using reaches_notD [OF assms(2) j] by simp
      qed
    qed
  qed
qed


text \<open>The patterns among themselves: in a bare domain no form with \<open>https://\<close> begins, and
  in the text of one domain no form of the other.\<close>

lemma patterns_apart:
  "begins_nowhere ''https://bulianglin2023.dev'' ''bulianglin2023.dev''"
  "begins_nowhere ''https://bulianglin2023.dev'' ''https://api.v1.mk''"
  "begins_nowhere ''bulianglin2023.dev'' ''https://api.v1.mk''"
  "begins_nowhere ''https://bulianglin2023.dev'' ''api.v1.mk''"
  "begins_nowhere ''bulianglin2023.dev'' ''api.v1.mk''"
  "begins_nowhere ''https://api.v1.mk'' ''api.v1.mk''"
  by code_simp+

lemma host_clearD:
  assumes "host_clear host currentHost"
  shows "CHR ''$'' \<notin> set host" "CHR ''$'' \<notin> set currentHost"
    "begins_nowhere ''bulianglin2023.dev'' host" "reaches_not ''bulianglin2023.dev'' host"
    "begins_nowhere ''https://api.v1.mk'' host" "reaches_not ''https://api.v1.mk'' host"
    "begins_nowhere ''api.v1.mk'' host" "reaches_not ''api.v1.mk'' host"
    "begins_nowhere ''https://api.v1.mk'' currentHost" "reaches_not ''https://api.v1.mk'' currentHost"
    "begins_nowhere ''api.v1.mk'' currentHost" "reaches_not ''api.v1.mk'' currentHost"
  using assms by (simp_all add: host_clear_def apart_def)

lemma rewrite_domains_chain:
  "rewrite_domains host currentHost content
     = replace_all ''api.v1.mk'' currentHost
         (replace_all ''https://api.v1.mk'' host
            (replace_all ''bulianglin2023.dev'' currentHost
               (replace_all ''https://bulianglin2023.dev'' host content)))"
  by (simp add: rewrite_domains_def Let_def)

lemma rewrite_https_first:
  assumes "host_clear host currentHost"
  shows "rewrite_domains host currentHost (''https://bulianglin2023.dev'' @ t)
    = host @ rewrite_domains host currentHost t"
proof -
  note h = host_clearD [OF assms]
  have "replace_all ''https://bulianglin2023.dev'' host (''https://bulianglin2023.dev'' @ t)
      = host @ replace_all ''https://bulianglin2023.dev'' host t"
    by (rule replace_all_match [OF h(1)]) simp
  then show ?thesis
    unfolding rewrite_domains_chain
    by (simp only: replace_all_skip [OF h(2) h(3)] replace_all_skip [OF h(1) h(5)]
          replace_all_skip [OF h(2) h(7)])
qed

lemma rewrite_bare_first:
  assumes "host_clear host currentHost"
  shows "rewrite_domains host currentHost (''bulianglin2023.dev'' @ t)
    = currentHost @ rewrite_domains host currentHost t"
proof -
  note h = host_clearD [OF assms]
  have "replace_all ''bulianglin2023.dev'' currentHost (''bulianglin2023.dev'' @ x)
      = currentHost @ replace_all ''bulianglin2023.dev'' currentHost x" for x
    by (rule replace_all_match [OF h(2)]) simp
  then show ?thesis
    unfolding rewrite_domains_chain
    by (simp only: replace_all_skip [OF h(1) patterns_apart(1)]
          replace_all_skip [OF h(1) h(9)] replace_all_skip [OF h(2) h(11)])
qed

lemma rewrite_https_second:
  assumes "host_clear host currentHost"
  shows "rewrite_domains host currentHost (''https://api.v1.mk'' @ t)
    = host @ rewrite_domains host currentHost t"
proof -
  note h = host_clearD [OF assms]
  have "replace_all ''https://api.v1.mk'' host (''https://api.v1.mk'' @ x)
      = host @ replace_all ''https://api.v1.mk'' host x" for x
    by (rule replace_all_match [OF h(1)]) simp
  then show ?thesis
    unfolding rewrite_domains_chain
    by (simp only: replace_all_skip [OF h(1) patterns_apart(2)]
          replace_all_skip [OF h(2) patterns_apart(3)] replace_all_skip [OF h(2) h(7)])
qed

lemma rewrite_bare_second:
  assumes "host_clear host currentHost"
  shows "rewrite_domains host currentHost (''api.v1.mk'' @ t)
    = currentHost @ rewrite_domains host currentHost t"
proof -
  note h = host_clearD [OF assms]
  have "replace_all ''api.v1.mk'' currentHost (''api.v1.mk'' @ x)
      = currentHost @ replace_all ''api.v1.mk'' currentHost x" for x
    by (rule replace_all_match [OF h(2)]) simp
  then show ?thesis
    unfolding rewrite_domains_chain
    by (simp only: replace_all_skip [OF h(1) patterns_apart(4)]
          replace_all_skip [OF h(2) patterns_apart(5)] replace_all_skip [OF h(1) patterns_apart(6)])
qed

lemma rewrite_other:
  assumes "host_clear host currentHost"
    and n1: "\<not> prefix ''https://bulianglin2023.dev'' (c # t)"
    and n2: "\<not> prefix ''bulianglin2023.dev'' (c # t)"
    and n3: "\<not> prefix ''https://api.v1.mk'' (c # t)"
    and n4: "\<not> prefix ''api.v1.mk'' (c # t)"
  shows "rewrite_domains host currentHost (c # t) = c # rewrite_domains host currentHost t"
proof -
  note h = host_clearD [OF assms(1)]
  let ?x1 = "replace_all ''https://bulianglin2023.dev'' host t"
  let ?x2 = "replace_all ''bulianglin2023.dev'' currentHost ?x1"
  let ?x3 = "replace_all ''https://api.v1.mk'' host ?x2"
  have front: "prefix pat (c # replace_all q ins y) \<Longrightarrow> prefix pat (c # y)"
    if "CHR ''$'' \<notin> set ins" "reaches_not pat ins" for pat q ins y
    using replace_all_front [OF that, of "[c]" q y] by simp
  have s1: "replace_all ''https://bulianglin2023.dev'' host (c # t) = c # ?x1"
    by (simp only: replace_all_Cons [OF h(1)] n1 simp_thms if_False)
  have "\<not> prefix ''bulianglin2023.dev'' (c # ?x1)"
    using front [OF h(1) h(4)] n2 by blast
  then have s2: "replace_all ''bulianglin2023.dev'' currentHost (c # ?x1) = c # ?x2"
    by (simp only: replace_all_Cons [OF h(2)] simp_thms if_False)
  have "\<not> prefix ''https://api.v1.mk'' (c # ?x2)"
    using front [OF h(2) h(10)] front [OF h(1) h(6)] n3 by blast
  then have s3: "replace_all ''https://api.v1.mk'' host (c # ?x2) = c # ?x3"
    by (simp only: replace_all_Cons [OF h(1)] simp_thms if_False)
  have "\<not> prefix ''api.v1.mk'' (c # ?x3)"
    using front [OF h(1) h(8)] front [OF h(2) h(12)] n4 by blast
  then have s4: "replace_all ''api.v1.mk'' currentHost (c # ?x3)
      = c # replace_all ''api.v1.mk'' currentHost ?x3"
    by (simp only: replace_all_Cons [OF h(2)] simp_thms if_False)
  show ?thesis
    unfolding rewrite_domains_chain by (simp only: s1 s2 s3 s4)
qed


lemma at_front:
  assumes "prefix p s" and "\<And>t. f (p @ t) = r @ f t"
  shows "f s = r @ f (drop (length p) s)"
proof -
  have "s = p @ drop (length p) s"
    using assms(1) by (auto simp: prefix_def)
  then have "f s = f (p @ drop (length p) s)"
    by (rule arg_cong)
  then show ?thesis
    by (simp only: assms(2))
qed

lemma pattern_lengths:
  "length ''https://bulianglin2023.dev'' = 26" "length ''https://api.v1.mk'' = 17"
  "length ''bulianglin2023.dev'' = 18" "length ''api.v1.mk'' = 9"
  by simp_all

text \<open>On a request whose origin and host leave the placeholders alone, the four
  replacements in a row do what one pass over the text does.\<close>

lemma rewrite_domains_one_pass:
  assumes "host_clear host currentHost"
  shows "rewrite_domains host currentHost content = replace_placeholders host currentHost content"
  using assms
proof (induction host currentHost content rule: replace_placeholders.induct)
  case (1 origin bare)
  show ?case by (simp add: rewrite_domains_chain)
next
  case (2 origin bare c cs)
  note clear = "2.prems"
  show ?case
  proof (cases "prefix ''https://bulianglin2023.dev'' (c # cs)")
    case True
    have "rewrite_domains origin bare (c # cs)
        = origin @ rewrite_domains origin bare (drop 26 (c # cs))"
      using at_front [where f = "rewrite_domains origin bare", OF True rewrite_https_first [OF clear]]
      by (simp only: pattern_lengths)
    also have "\<dots> = origin @ replace_placeholders origin bare (drop 26 (c # cs))"
      by (simp only: "2.IH"(1) [OF True clear])
    also have "\<dots> = replace_placeholders origin bare (c # cs)"
      by (simp only: replace_placeholders.simps(2) True if_True)
    finally show ?thesis .
  next
    case n1: False
    show ?thesis
    proof (cases "prefix ''https://api.v1.mk'' (c # cs)")
      case True
      have "rewrite_domains origin bare (c # cs)
          = origin @ rewrite_domains origin bare (drop 17 (c # cs))"
        using at_front [where f = "rewrite_domains origin bare", OF True
            rewrite_https_second [OF clear]]
        by (simp only: pattern_lengths)
      also have "\<dots> = origin @ replace_placeholders origin bare (drop 17 (c # cs))"
        by (simp only: "2.IH"(2) [OF n1 True clear])
      also have "\<dots> = replace_placeholders origin bare (c # cs)"
        by (simp only: replace_placeholders.simps(2) n1 True if_True if_False)
      finally show ?thesis .
    next
      case n3: False
      show ?thesis
      proof (cases "prefix ''bulianglin2023.dev'' (c # cs)")
        case True
        have "rewrite_domains origin bare (c # cs)
            = bare @ rewrite_domains origin bare (drop 18 (c # cs))"
          using at_front [where f = "rewrite_domains origin bare", OF True
              rewrite_bare_first [OF clear]]
          by (simp only: pattern_lengths)
        also have "\<dots> = bare @ replace_placeholders origin bare (drop 18 (c # cs))"
          by (simp only: "2.IH"(3) [OF n1 n3 True clear])
        also have "\<dots> = replace_placeholders origin bare (c # cs)"
          by (simp only: replace_placeholders.simps(2) n1 n3 True if_True if_False)
        finally show ?thesis .
      next
        case n2: False
        show ?thesis
        proof (cases "prefix ''api.v1.mk'' (c # cs)")
          case True
          have "rewrite_domains origin bare (c # cs)
              = bare @ rewrite_domains origin bare (drop 9 (c # cs))"
            using at_front [where f = "rewrite_domains origin bare", OF True
                rewrite_bare_second [OF clear]]
            by (simp only: pattern_lengths)
          also have "\<dots> = bare @ replace_placeholders origin bare (drop 9 (c # cs))"
            by (simp only: "2.IH"(4) [OF n1 n3 n2 True clear])
          also have "\<dots> = replace_placeholders origin bare (c # cs)"
            by (simp only: replace_placeholders.simps(2) n1 n3 n2 True if_True if_False)
          finally show ?thesis .
        next
          case n4: False
          have "rewrite_domains origin bare (c # cs) = c # rewrite_domains origin bare cs"
            by (rule rewrite_other [OF clear n1 n2 n3 n4])
          also have "\<dots> = c # replace_placeholders origin bare cs"
            by (simp only: "2.IH"(5) [OF n1 n3 n2 n4 clear])
          also have "\<dots> = replace_placeholders origin bare (c # cs)"
            by (simp only: replace_placeholders.simps(2) n1 n3 n2 n4 if_False)
          finally show ?thesis .
        qed
      qed
    qed
  qed
qed


lemma forwardToBackend_ok:
  assumes "network E (length (fetches s)) (backend @ url_pathname u @ url_search u)
             (backend_fetch_headers rq) = Resolved r"
    and "up_ok r" "up_text r = Inr content"
  shows "resp_status (fst (forwardToBackend E rq u backend host sd s)) = 200"
    and "resp_body (fst (forwardToBackend E rq u backend host sd s))
          = Text (rewrite_domains host (url_host u) content)"
  using assms by (simp_all add: forwardToBackend_def fetch_def Let_def)

lemma answering_fetch:
  "network (answering_env answer) n u hs
     = Resolved \<lparr>up_status = 200, up_headers = [(''content-type'', ''text/plain'')],
                 up_text = Inr answer\<rparr>"
  by (simp add: answering_env_def)

lemma answer_ok:
  "up_ok \<lparr>up_status = 200, up_headers = hs, up_text = t\<rparr>"
  "up_text \<lparr>up_status = 200, up_headers = hs, up_text = t\<rparr> = t"
  by (simp_all add: up_ok_def)

lemma request_at_host:
  "url_host (req_url (request_at hostname)) = hostname"
  "getHost (request_at hostname) = ''https://'' @ hostname"
  by (simp_all add: request_at_def getHost_def)

lemma example_com_clear: "host_clear ''https://example.com'' ''example.com''"
  by code_simp

lemma example_rewrites:
  "replace_placeholders ''https://example.com'' ''example.com'' ''https://api.v1.mk/foo api.v1.mk''
     = ''https://example.com/foo example.com''"
  "replace_placeholders ''https://example.com'' ''example.com'' ''api.v1.mk https://api.v1.mk/foo''
     = ''example.com https://example.com/foo''"
  by code_simp+

lemma subdomain_rewrite:
  "rewrite_domains ''https://x.api.v1.mk'' ''x.api.v1.mk'' ''bulianglin2023.dev'' = ''x.x.api.v1.mk''"
  by code_simp

text \<open>
  C7, as the code has it. For a request whose origin and host leave the placeholders alone
  (no \<open>$\<close> in them, and no way for them to overlap an occurrence of a pattern that a later
  replacement looks for; \<open>example.com\<close> is such a host), the body of every successful
  answer of the backend comes back with every occurrence of \<open>https://bulianglin2023.dev\<close>
  and \<open>https://api.v1.mk\<close> replaced by the origin and every other occurrence of
  \<open>bulianglin2023.dev\<close> and \<open>api.v1.mk\<close> by the host: the four replacements in a row
  give what one pass over the text gives, wherever and in whatever order the literals stand.
\<close>

theorem backend_answer_rewritten:
  assumes "host_clear host (url_host u)"
    and "network E (length (fetches s)) (backend @ url_pathname u @ url_search u)
             (backend_fetch_headers rq) = Resolved r"
    and "up_ok r" "up_text r = Inr content"
  shows "resp_status (fst (forwardToBackend E rq u backend host sd s)) = 200
    \<and> resp_body (fst (forwardToBackend E rq u backend host sd s))
        = Text (replace_placeholders host (url_host u) content)"
  using forwardToBackend_ok [OF assms(2-4), of host sd] rewrite_domains_one_pass [OF assms(1)]
  by simp

theorem backend_answer_rewritten_witness:
  "resp_body (fst (forwardToBackend (answering_env ''https://api.v1.mk/foo api.v1.mk'')
       (request_at ''example.com'') (req_url (request_at ''example.com''))
       ''https://api.v1.mk'' ''https://example.com'' subDir empty_state))
     = Text ''https://example.com/foo example.com''
   \<and> resp_body (fst (forwardToBackend (answering_env ''api.v1.mk https://api.v1.mk/foo'')
       (request_at ''example.com'') (req_url (request_at ''example.com''))
       ''https://api.v1.mk'' ''https://example.com'' subDir empty_state))
     = Text ''example.com https://example.com/foo''"
proof -
  have c: "host_clear ''https://example.com'' (url_host (req_url (request_at ''example.com'')))"
    using example_com_clear by (simp only: request_at_host)
  show ?thesis
    using backend_answer_rewritten [OF c
        answering_fetch [where answer = "''https://api.v1.mk/foo api.v1.mk''"] answer_ok,
        where s = empty_state
        and backend = "''https://api.v1.mk''" and rq = "request_at ''example.com''"
        and sd = subDir]
      backend_answer_rewritten [OF c
        answering_fetch [where answer = "''api.v1.mk https://api.v1.mk/foo''"] answer_ok,
        where s = empty_state
        and backend = "''https://api.v1.mk''" and rq = "request_at ''example.com''"
        and sd = subDir]
    by (simp only: request_at_host example_rewrites)
qed

text \<open>The claim is about every request. A request that arrives at \<open>x.api.v1.mk\<close>, a host
  with a placeholder in its name, gets the bare \<open>bulianglin2023.dev\<close> of the answer replaced
  by \<open>x.x.api.v1.mk\<close>, which is not its host: the fourth replacement finds \<open>api.v1.mk\<close> in
  what the second one inserted.\<close>

theorem backend_answer_rewritten_counterexample:
  "url_host (req_url (request_at ''x.api.v1.mk'')) = ''x.api.v1.mk''
   \<and> resp_body (fst (forwardToBackend (answering_env ''bulianglin2023.dev'')
       (request_at ''x.api.v1.mk'') (req_url (request_at ''x.api.v1.mk''))
       (BACKEND (answering_env ''bulianglin2023.dev'')) (getHost (request_at ''x.api.v1.mk''))
       subDir empty_state))
     = Text ''x.x.api.v1.mk''"
  using forwardToBackend_ok(2) [OF answering_fetch [where answer = "''bulianglin2023.dev''"]
      answer_ok, where s = empty_state
      and backend = "BACKEND (answering_env ''bulianglin2023.dev'')"
      and u = "req_url (request_at ''x.api.v1.mk'')" and rq = "request_at ''x.api.v1.mk''"
      and host = "getHost (request_at ''x.api.v1.mk'')" and sd = subDir]
  by (simp add: request_at_host subdomain_rewrite)

end
